theory Spec2Isabelle
  imports Complex_Main "HOL-Library.Log_Nat"
begin

section \<open>JavaScript numbers\<close>

text \<open>
  Every numeric field and intermediate value of the program is a JavaScript \<^verbatim>\<open>number\<close>.
  The model keeps the three non-finite values of that type apart from the finite ones, so
  that a division by zero or a maximum of nothing is visible in a result instead of being
  absorbed. The operations \<open>+\<close>, \<open>-\<close>, \<open>*\<close> and \<open>/\<close> below are exact on finite
  values; the double-precision operations, which round every result to binary64 and
  overflow to an infinity, are defined on top of them further down. The sign of zero is
  not modelled.
\<close>

datatype number = Num rat | PosInfinity | NegInfinity | NaN

instantiation number :: "{plus, minus, uminus, times, inverse, ord}"
begin

fun uminus_number :: "number \<Rightarrow> number" where
  "uminus_number (Num a) = Num (- a)"
| "uminus_number PosInfinity = NegInfinity"
| "uminus_number NegInfinity = PosInfinity"
| "uminus_number NaN = NaN"

fun plus_number :: "number \<Rightarrow> number \<Rightarrow> number" where
  "plus_number (Num a) (Num b) = Num (a + b)"
| "plus_number NaN y = NaN"
| "plus_number x NaN = NaN"
| "plus_number PosInfinity NegInfinity = NaN"
| "plus_number NegInfinity PosInfinity = NaN"
| "plus_number PosInfinity y = PosInfinity"
| "plus_number x PosInfinity = PosInfinity"
| "plus_number NegInfinity y = NegInfinity"
| "plus_number x NegInfinity = NegInfinity"

definition minus_number :: "number \<Rightarrow> number \<Rightarrow> number" where
  "minus_number x y = x + (- y)"

fun times_number :: "number \<Rightarrow> number \<Rightarrow> number" where
  "times_number (Num a) (Num b) = Num (a * b)"
| "times_number NaN y = NaN"
| "times_number x NaN = NaN"
| "times_number PosInfinity (Num b) =
     (if b = 0 then NaN else if 0 < b then PosInfinity else NegInfinity)"
| "times_number NegInfinity (Num b) =
     (if b = 0 then NaN else if 0 < b then NegInfinity else PosInfinity)"
| "times_number (Num a) PosInfinity =
     (if a = 0 then NaN else if 0 < a then PosInfinity else NegInfinity)"
| "times_number (Num a) NegInfinity =
     (if a = 0 then NaN else if 0 < a then NegInfinity else PosInfinity)"
| "times_number PosInfinity PosInfinity = PosInfinity"
| "times_number NegInfinity NegInfinity = PosInfinity"
| "times_number PosInfinity NegInfinity = NegInfinity"
| "times_number NegInfinity PosInfinity = NegInfinity"

fun divide_number :: "number \<Rightarrow> number \<Rightarrow> number" where
  "divide_number (Num a) (Num b) =
     (if b = 0 then (if a = 0 then NaN else if 0 < a then PosInfinity else NegInfinity)
      else Num (a / b))"
| "divide_number NaN y = NaN"
| "divide_number x NaN = NaN"
| "divide_number (Num a) y = Num 0"
| "divide_number PosInfinity (Num b) = (if 0 \<le> b then PosInfinity else NegInfinity)"
| "divide_number NegInfinity (Num b) = (if 0 \<le> b then NegInfinity else PosInfinity)"
| "divide_number x y = NaN"

definition inverse_number :: "number \<Rightarrow> number" where
  "inverse_number x = divide (Num 1) x"

fun less_number :: "number \<Rightarrow> number \<Rightarrow> bool" where
  "less_number (Num a) (Num b) = (a < b)"
| "less_number NaN y = False"
| "less_number x NaN = False"
| "less_number x NegInfinity = False"
| "less_number PosInfinity y = False"
| "less_number NegInfinity y = True"
| "less_number x PosInfinity = True"

definition less_eq_number :: "number \<Rightarrow> number \<Rightarrow> bool" where
  "less_eq_number x y = (x < y \<or> (x = y \<and> x \<noteq> NaN))"

instance ..

end

text \<open>Truthiness of a number in a condition: \<^verbatim>\<open>0\<close> and \<^verbatim>\<open>NaN\<close> are falsy.\<close>

fun truthy :: "number \<Rightarrow> bool" where
  "truthy (Num a) = (a \<noteq> 0)"
| "truthy NaN = False"
| "truthy PosInfinity = True"
| "truthy NegInfinity = True"

text \<open>\<^verbatim>\<open>xs.length\<close> as a number.\<close>

definition len :: "'a list \<Rightarrow> number" where
  "len xs = Num (of_nat (length xs))"

section \<open>Dates\<close>

text \<open>
  A \<^verbatim>\<open>Date\<close> holds a time value in milliseconds since the epoch, or is an Invalid Date
  (\<open>None\<close>), whose time value is \<^verbatim>\<open>NaN\<close>. The parser behind \<^verbatim>\<open>new Date(string)\<close> is the
  platform's; every function that parses takes it as the parameter \<open>parse\<close>. The clock
  read by \<^verbatim>\<open>new Date()\<close> is the parameter \<open>now\<close>; one call of an analytics function
  is evaluated at one instant.
\<close>

type_synonym date = "int option"

text \<open>Relational comparison of two dates compares time values; with \<^verbatim>\<open>NaN\<close> it is false.\<close>

fun date_lt :: "date \<Rightarrow> date \<Rightarrow> bool" where
  "date_lt (Some a) (Some b) = (a < b)"
| "date_lt _ _ = False"

fun date_ge :: "date \<Rightarrow> date \<Rightarrow> bool" where
  "date_ge (Some a) (Some b) = (b \<le> a)"
| "date_ge _ _ = False"

text \<open>
  A time zone gives the offset of local time from UTC in milliseconds, once for an
  instant given in UTC and once for a local time value (\<^verbatim>\<open>LocalTZA\<close> of ECMAScript with
  \<^verbatim>\<open>isUTC\<close> true and false).
\<close>

record TimeZone =
  offsetAtUTC :: "int \<Rightarrow> int"
  offsetAtLocal :: "int \<Rightarrow> int"

section \<open>The loan model\<close>

record Loan =
  id_loan :: string
  lenderName :: string
  phoneNumber :: string
  amount :: number
  repaymentDate :: string
  interestRate :: "number option"
  isPaid :: bool

text \<open>
  \<^verbatim>\<open>LoanModel.calculateTotalWithInterest\<close> in exact arithmetic; an absent rate is
  \<open>None\<close>. The same method with every operation rounded to binary64 is
  \<open>calculateTotalWithInterest64\<close> below.
\<close>

definition calculateTotalWithInterest :: "Loan \<Rightarrow> number" where
  "calculateTotalWithInterest loan =
     (case interestRate loan of
        None \<Rightarrow> amount loan
      | Some r \<Rightarrow>
          (if truthy r then
             (let interest = (amount loan * r) / Num 100 in amount loan + interest)
           else amount loan))"

text \<open>\<^verbatim>\<open>LoanModel.isOverdue\<close>.\<close>

definition isOverdue :: "(string \<Rightarrow> date) \<Rightarrow> int \<Rightarrow> Loan \<Rightarrow> bool" where
  "isOverdue parse now loan =
     (date_lt (parse (repaymentDate loan)) (Some now) \<and> \<not> isPaid loan)"

text \<open>
  The derived status, as every report computes it
  (\<^verbatim>\<open>loan.isPaid ? 'PAID' : loan.isOverdue() ? 'OVERDUE' : 'PENDING'\<close>).
\<close>

datatype Status = PAID | OVERDUE | PENDING

definition status :: "(string \<Rightarrow> date) \<Rightarrow> int \<Rightarrow> Loan \<Rightarrow> Status" where
  "status parse now loan =
     (if isPaid loan then PAID else if isOverdue parse now loan then OVERDUE else PENDING)"

section \<open>Double-precision arithmetic\<close>

text \<open>
  A finite \<^verbatim>\<open>number\<close> is a binary64 value: 53 significant bits, exponents from \<open>-1022\<close>
  to \<open>1023\<close>, subnormal values below. \<open>binade x\<close> is the exponent \<open>e\<close> with
  \<open>2^e \<le> x < 2^(e+1)\<close> of a positive rational, \<open>ulp x\<close> the spacing of the binary64
  values around it, \<open>nearest x\<close> the binary64 magnitude nearest to it, a tie going to the
  even significand. \<open>toDouble\<close> rounds a rational this way and overflows to an infinity
  from \<open>2^1024\<close> on. Every arithmetic operation of the platform returns the rounded
  exact result.
\<close>

definition binade :: "rat \<Rightarrow> int" where
  "binade x = (if 1 \<le> x then bitlen \<lfloor>x\<rfloor> - 1 else - bitlen (\<lceil>1 / x\<rceil> - 1))"

definition ulp :: "rat \<Rightarrow> rat" where
  "ulp x = 2 powi (max (binade x) (- 1022) - 52)"

definition roundEven :: "rat \<Rightarrow> int" where
  "roundEven m =
     (let n = \<lfloor>m\<rfloor>; r = m - of_int n
      in if r < 1 / 2 then n else if 1 / 2 < r then n + 1 else if even n then n else n + 1)"

definition nearest :: "rat \<Rightarrow> rat" where
  "nearest x = of_int (roundEven (x / ulp x)) * ulp x"

definition toDouble :: "rat \<Rightarrow> number" where
  "toDouble x =
     (if x = 0 then Num 0
      else (let y = nearest \<bar>x\<bar>
            in if 2 ^ 1024 \<le> y then (if 0 < x then PosInfinity else NegInfinity)
               else Num (if 0 < x then y else - y)))"

fun round64 :: "number \<Rightarrow> number" where
  "round64 (Num a) = toDouble a"
| "round64 x = x"

definition add64 :: "number \<Rightarrow> number \<Rightarrow> number" where
  "add64 x y = round64 (x + y)"

definition sub64 :: "number \<Rightarrow> number \<Rightarrow> number" where
  "sub64 x y = round64 (x - y)"

definition mul64 :: "number \<Rightarrow> number \<Rightarrow> number" where
  "mul64 x y = round64 (x * y)"

definition div64 :: "number \<Rightarrow> number \<Rightarrow> number" where
  "div64 x y = round64 (x / y)"

text \<open>
  \<^verbatim>\<open>LoanModel.calculateTotalWithInterest\<close> as the platform computes it: the product, the
  quotient and the sum are each rounded.
\<close>

definition calculateTotalWithInterest64 :: "Loan \<Rightarrow> number" where
  "calculateTotalWithInterest64 loan =
     (case interestRate loan of
        None \<Rightarrow> amount loan
      | Some r \<Rightarrow>
          (if truthy r then
             (let interest = div64 (mul64 (amount loan) r) (Num 100)
              in add64 (amount loan) interest)
           else amount loan))"

section \<open>Library functions of the platform\<close>

fun Math_max2 :: "number \<Rightarrow> number \<Rightarrow> number" where
  "Math_max2 NaN y = NaN"
| "Math_max2 x NaN = NaN"
| "Math_max2 x y = (if x < y then y else x)"

fun Math_min2 :: "number \<Rightarrow> number \<Rightarrow> number" where
  "Math_min2 NaN y = NaN"
| "Math_min2 x NaN = NaN"
| "Math_min2 x y = (if y < x then y else x)"

text \<open>
  \<^verbatim>\<open>Math.max(...xs)\<close> and \<^verbatim>\<open>Math.min(...xs)\<close>: of no arguments they are
  \<^verbatim>\<open>-Infinity\<close> and \<^verbatim>\<open>Infinity\<close>.
\<close>

definition Math_max :: "number list \<Rightarrow> number" where
  "Math_max xs = foldl Math_max2 NegInfinity xs"

definition Math_min :: "number list \<Rightarrow> number" where
  "Math_min xs = foldl Math_min2 PosInfinity xs"

fun Math_abs :: "number \<Rightarrow> number" where
  "Math_abs (Num a) = Num \<bar>a\<bar>"
| "Math_abs PosInfinity = PosInfinity"
| "Math_abs NegInfinity = PosInfinity"
| "Math_abs NaN = NaN"

text \<open>\<^verbatim>\<open>Math.round\<close> rounds to the nearest integer, a half towards \<^verbatim>\<open>+Infinity\<close>.\<close>

fun Math_round :: "number \<Rightarrow> number" where
  "Math_round (Num a) = Num (of_int (round a))"
| "Math_round x = x"

text \<open>
  A \<^verbatim>\<open>Map\<close> keeps its keys in insertion order: an association list in which
  \<^verbatim>\<open>set\<close> replaces the value of a present key in place and appends an absent one.
\<close>

fun Map_get :: "('k \<times> 'v) list \<Rightarrow> 'k \<Rightarrow> 'v option" where
  "Map_get [] k = None"
| "Map_get ((k', v') # m) k = (if k' = k then Some v' else Map_get m k)"

fun Map_set :: "('k \<times> 'v) list \<Rightarrow> 'k \<Rightarrow> 'v \<Rightarrow> ('k \<times> 'v) list" where
  "Map_set [] k v = [(k, v)]"
| "Map_set ((k', v') # m) k v = (if k' = k then (k', v) # m else (k', v') # Map_set m k v)"

definition Map_values :: "('k \<times> 'v) list \<Rightarrow> 'v list" where
  "Map_values m = map snd m"

text \<open>
  \<^verbatim>\<open>Array.prototype.sort\<close> with a comparator is stable; insertion from the right
  computes the stable order. A comparator result that is not positive (also \<^verbatim>\<open>NaN\<close>)
  leaves the earlier element first.
\<close>

fun insertBy :: "('a \<Rightarrow> 'a \<Rightarrow> number) \<Rightarrow> 'a \<Rightarrow> 'a list \<Rightarrow> 'a list" where
  "insertBy cmp x [] = [x]"
| "insertBy cmp x (y # ys) =
     (if Num 0 < cmp x y then y # insertBy cmp x ys else x # y # ys)"

definition sortBy :: "('a \<Rightarrow> 'a \<Rightarrow> number) \<Rightarrow> 'a list \<Rightarrow> 'a list" where
  "sortBy cmp xs = foldr (insertBy cmp) xs []"

text \<open>Reading an array at an index: out of range gives \<^verbatim>\<open>undefined\<close>, in arithmetic \<^verbatim>\<open>NaN\<close>.\<close>

definition at_index :: "number list \<Rightarrow> nat \<Rightarrow> number" where
  "at_index xs i = (if i < length xs then xs ! i else NaN)"

section \<open>The analytics service\<close>

subsection \<open>Overview\<close>

record OverviewAnalytics =
  totalLoans :: number
  activeLoans :: number
  paidLoans :: number
  overdueLoans :: number
  pendingLoans :: number
  totalDebt :: number
  totalInterest :: number
  overdueAmount :: number
  paidAmount :: number
  pendingAmount :: number
  averageLoanAmount :: number
  smallestLoan :: number
  largestLoan :: number
  paymentRate :: number

text \<open>\<^verbatim>\<open>loans.reduce((sum, loan) => sum + loan.calculateTotalWithInterest(), 0)\<close>.\<close>

definition sumTotals :: "Loan list \<Rightarrow> number" where
  "sumTotals loans = foldl (\<lambda>sum loan. sum + calculateTotalWithInterest loan) (Num 0) loans"

definition sumInterest :: "Loan list \<Rightarrow> number" where
  "sumInterest loans =
     foldl (\<lambda>sum loan.
        (case interestRate loan of
           None \<Rightarrow> sum
         | Some r \<Rightarrow> (if truthy r then sum + (amount loan * r) / Num 100 else sum)))
       (Num 0) loans"

definition generateOverviewAnalytics ::
    "(string \<Rightarrow> date) \<Rightarrow> int \<Rightarrow> Loan list \<Rightarrow> OverviewAnalytics" where
  "generateOverviewAnalytics parse now loans =
     (let totalLoans = len loans;
          paidLoans = len (filter isPaid loans);
          overdueLoans = len (filter (isOverdue parse now) loans);
          activeLoans = totalLoans - paidLoans;
          pendingLoans = activeLoans - overdueLoans;
          totalDebt = sumTotals loans;
          totalInterest = sumInterest loans;
          overdueAmount = sumTotals (filter (isOverdue parse now) loans);
          paidAmount = sumTotals (filter isPaid loans);
          pendingAmount = totalDebt - paidAmount - overdueAmount;
          loanAmounts = map calculateTotalWithInterest loans;
          averageLoanAmount = (if Num 0 < totalLoans then totalDebt / totalLoans else Num 0);
          smallestLoan = (if Num 0 < len loanAmounts then Math_min loanAmounts else Num 0);
          largestLoan = (if Num 0 < len loanAmounts then Math_max loanAmounts else Num 0);
          paymentRate =
            (if Num 0 < totalLoans then (paidLoans / totalLoans) * Num 100 else Num 0)
      in \<lparr> totalLoans = totalLoans, activeLoans = activeLoans, paidLoans = paidLoans,
           overdueLoans = overdueLoans, pendingLoans = pendingLoans, totalDebt = totalDebt,
           totalInterest = totalInterest, overdueAmount = overdueAmount,
           paidAmount = paidAmount, pendingAmount = pendingAmount,
           averageLoanAmount = averageLoanAmount, smallestLoan = smallestLoan,
           largestLoan = largestLoan, paymentRate = paymentRate \<rparr>)"

subsection \<open>Lender analysis\<close>

datatype RiskLevel = Low | Medium | High

text \<open>The value type of the lender map.\<close>

record LenderData =
  loans_d :: "Loan list"
  totalAmount_d :: number
  paidLoans_d :: number
  overdueLoans_d :: number

record LenderAnalysis =
  name_l :: string
  totalLoans_l :: number
  totalAmount_l :: number
  paidLoans_l :: number
  overdueLoans_l :: number
  paymentRate_l :: number
  averageAmount_l :: number
  riskLevel :: RiskLevel

text \<open>
  One iteration of the grouping loop. The source inserts an empty entry when the lender is
  new, fetches the entry and mutates it in place; the entry after the iteration is the
  same either way, and a new key is appended.
\<close>

definition groupLoan ::
    "(string \<Rightarrow> date) \<Rightarrow> int \<Rightarrow> (string \<times> LenderData) list \<Rightarrow> Loan
      \<Rightarrow> (string \<times> LenderData) list" where
  "groupLoan parse now lenderMap loan =
     (let lenderData =
            (case Map_get lenderMap (lenderName loan) of
               None \<Rightarrow> \<lparr> loans_d = [], totalAmount_d = Num 0, paidLoans_d = Num 0,
                          overdueLoans_d = Num 0 \<rparr>
             | Some d \<Rightarrow> d);
          pushed = lenderData \<lparr> loans_d := loans_d lenderData @ [loan],
                     totalAmount_d := totalAmount_d lenderData + calculateTotalWithInterest loan \<rparr>;
          counted =
            (if isPaid loan then pushed \<lparr> paidLoans_d := paidLoans_d pushed + Num 1 \<rparr>
             else if isOverdue parse now loan
               then pushed \<lparr> overdueLoans_d := overdueLoans_d pushed + Num 1 \<rparr>
             else pushed)
      in Map_set lenderMap (lenderName loan) counted)"

definition analyseLender :: "string \<times> LenderData \<Rightarrow> LenderAnalysis" where
  "analyseLender entry =
     (let name = fst entry; data = snd entry;
          totalLoans = len (loans_d data);
          paymentRate =
            (if Num 0 < totalLoans then (paidLoans_d data / totalLoans) * Num 100 else Num 0);
          averageAmount =
            (if Num 0 < totalLoans then totalAmount_d data / totalLoans else Num 0);
          overdueRate =
            (if Num 0 < totalLoans then (overdueLoans_d data / totalLoans) * Num 100 else Num 0);
          riskLevel =
            (if Num 50 < overdueRate \<or> paymentRate < Num 30 then High
             else if Num 20 < overdueRate \<or> paymentRate < Num 60 then Medium
             else Low)
      in \<lparr> name_l = name, totalLoans_l = totalLoans, totalAmount_l = totalAmount_d data,
           paidLoans_l = paidLoans_d data, overdueLoans_l = overdueLoans_d data,
           paymentRate_l = paymentRate, averageAmount_l = averageAmount,
           riskLevel = riskLevel \<rparr>)"

definition generateLenderAnalysis ::
    "(string \<Rightarrow> date) \<Rightarrow> int \<Rightarrow> Loan list \<Rightarrow> LenderAnalysis list" where
  "generateLenderAnalysis parse now loans =
     (let lenderMap = foldl (groupLoan parse now) [] loans;
          analysis = map analyseLender lenderMap
      in sortBy (\<lambda>a b. totalAmount_l b - totalAmount_l a) analysis)"

subsection \<open>Payment trends\<close>

datatype Trend = up | down | stable

record PaymentTrend =
  period :: string
  payments :: number
  amount_t :: number
  trend :: Trend
  changePercentage :: number

definition periods :: "string list" where
  "periods = [''Last 7 days'', ''Last 30 days'', ''Last 90 days'', ''Last 6 months'', ''Last year'']"

definition dayRanges :: "int list" where
  "dayRanges = [7, 30, 90, 180, 365]"

text \<open>
  \<^verbatim>\<open>d = new Date(); d.setDate(d.getDate() - days)\<close>: the local time value of \<open>now\<close> is
  moved back by whole days of 86400000 ms and read as a local time again, so the result
  shifts with the zone's offset where the clocks changed in between.
\<close>

definition daysAgo :: "TimeZone \<Rightarrow> int \<Rightarrow> int \<Rightarrow> int" where
  "daysAgo zone now days =
     (let local = now + offsetAtUTC zone now;
          moved = local - days * 86400000
      in moved - offsetAtLocal zone moved)"

text \<open>The paid loans whose repayment date is not before the cutoff.\<close>

definition paidSince :: "(string \<Rightarrow> date) \<Rightarrow> int \<Rightarrow> Loan list \<Rightarrow> Loan list" where
  "paidSince parse cutoffDate loans =
     filter (\<lambda>loan. date_ge (parse (repaymentDate loan)) (Some cutoffDate) \<and> isPaid loan) loans"

text \<open>
  \<^verbatim>\<open>loans.reduce((sum, loan) => sum + loan.calculateTotalWithInterest(), 0)\<close> with every
  addition rounded.
\<close>

definition sumTotals64 :: "Loan list \<Rightarrow> number" where
  "sumTotals64 loans =
     foldl (\<lambda>sum loan. add64 sum (calculateTotalWithInterest64 loan)) (Num 0) loans"

text \<open>The body of the loop over the periods, at index \<open>i\<close>, in double precision.\<close>

definition trendAt ::
    "TimeZone \<Rightarrow> (string \<Rightarrow> date) \<Rightarrow> int \<Rightarrow> Loan list \<Rightarrow> nat \<Rightarrow> PaymentTrend" where
  "trendAt zone parse now loans i =
     (let period = periods ! i;
          days = dayRanges ! i;
          cutoffDate = daysAgo zone now days;
          periodLoans = paidSince parse cutoffDate loans;
          payments = len periodLoans;
          amount = sumTotals64 periodLoans;
          (trend, changePercentage) =
            (if 0 < i then
               (let prevPeriodDays = dayRanges ! (i - 1);
                    prevCutoffDate = daysAgo zone now prevPeriodDays;
                    prevPeriodLoans = paidSince parse prevCutoffDate loans;
                    prevAmount = sumTotals64 prevPeriodLoans
                in if Num 0 < prevAmount then
                     (let changePercentage =
                            mul64 (div64 (sub64 amount prevAmount) prevAmount) (Num 100)
                      in (if Num 5 < changePercentage then up
                          else if changePercentage < Num (- 5) then down
                          else stable,
                          changePercentage))
                   else (stable, Num 0))
             else (stable, Num 0))
      in \<lparr> period = period, payments = payments, amount_t = amount, trend = trend,
           changePercentage = Math_abs changePercentage \<rparr>)"

function trendsLoop ::
    "TimeZone \<Rightarrow> (string \<Rightarrow> date) \<Rightarrow> int \<Rightarrow> Loan list \<Rightarrow> nat \<Rightarrow> PaymentTrend list
      \<Rightarrow> PaymentTrend list" where
  "trendsLoop zone parse now loans i trends =
     (if i < length periods
        then trendsLoop zone parse now loans (Suc i) (trends @ [trendAt zone parse now loans i])
      else trends)"
  by pat_completeness auto
termination
  by (relation "measure (\<lambda>(zone, parse, now, loans, i, trends). length periods - i)") auto

definition generatePaymentTrends ::
    "TimeZone \<Rightarrow> (string \<Rightarrow> date) \<Rightarrow> int \<Rightarrow> Loan list \<Rightarrow> PaymentTrend list" where
  "generatePaymentTrends zone parse now loans = trendsLoop zone parse now loans 0 []"

subsection \<open>Risk assessment\<close>

record RiskFactor =
  name :: string
  score :: number
  impact :: string
  recommendation :: string

record RiskAssessment =
  overallRisk :: number
  factors :: "RiskFactor list"
  summary :: string

text \<open>\<^verbatim>\<open>loan.interestRate && loan.interestRate > 0\<close>.\<close>

definition hasInterest :: "Loan \<Rightarrow> bool" where
  "hasInterest loan =
     (case interestRate loan of None \<Rightarrow> False | Some r \<Rightarrow> truthy r \<and> Num 0 < r)"

text \<open>One iteration of the loop that sums the exposure per lender.\<close>

definition addExposure :: "(string \<times> number) list \<Rightarrow> Loan \<Rightarrow> (string \<times> number) list" where
  "addExposure lenderMap loan =
     (let current =
            (case Map_get lenderMap (lenderName loan) of
               None \<Rightarrow> Num 0
             | Some v \<Rightarrow> (if truthy v then v else Num 0))
      in Map_set lenderMap (lenderName loan) (current + calculateTotalWithInterest loan))"

definition weights :: "number list" where
  "weights = [Num (3 / 10), Num (25 / 100), Num (15 / 100), Num (2 / 10), Num (1 / 10)]"

text \<open>\<^verbatim>\<open>factors.reduce((sum, factor, index) => sum + factor.score * weights[index], 0)\<close>.\<close>

definition weightedScore :: "RiskFactor list \<Rightarrow> number" where
  "weightedScore fs =
     foldl (\<lambda>sum (factor, index). sum + score factor * at_index weights index) (Num 0)
       (zip fs [0..<length fs])"

definition overdueFactor :: "(string \<Rightarrow> date) \<Rightarrow> int \<Rightarrow> Loan list \<Rightarrow> RiskFactor" where
  "overdueFactor parse now loans =
     (let overdueLoans = len (filter (isOverdue parse now) loans);
          overdueRate =
            (if Num 0 < len loans then (overdueLoans / len loans) * Num 100 else Num 0);
          overdueScore = Math_min [overdueRate * Num 2, Num 100]
      in \<lparr> name = ''Overdue Rate'', score = overdueScore,
           impact = (if Num 30 < overdueRate then ''High''
                     else if Num 15 < overdueRate then ''Medium'' else ''Low''),
           recommendation =
             (if Num 30 < overdueRate
                then ''Immediate action required - contact overdue borrowers''
              else if Num 15 < overdueRate
                then ''Monitor closely and follow up on overdue loans''
              else ''Maintain current collection practices'') \<rparr>)"

definition concentrationFactor :: "Loan list \<Rightarrow> RiskFactor" where
  "concentrationFactor loans =
     (let lenderMap = foldl addExposure [] loans;
          totalDebt = sumTotals loans;
          maxLenderExposure = Math_max (Map_values lenderMap);
          concentrationRate =
            (if Num 0 < totalDebt then (maxLenderExposure / totalDebt) * Num 100 else Num 0);
          concentrationScore =
            (if Num 50 < concentrationRate then Num 80
             else if Num 30 < concentrationRate then Num 50 else Num 20)
      in \<lparr> name = ''Concentration Risk'', score = concentrationScore,
           impact = (if Num 50 < concentrationRate then ''High''
                     else if Num 30 < concentrationRate then ''Medium'' else ''Low''),
           recommendation =
             (if Num 50 < concentrationRate
                then ''Diversify lending portfolio to reduce single-lender dependency''
              else if Num 30 < concentrationRate
                then ''Consider diversifying to reduce concentration risk''
              else ''Good diversification across lenders'') \<rparr>)"

definition interestFactor :: "Loan list \<Rightarrow> RiskFactor" where
  "interestFactor loans =
     (let loansWithInterest = filter hasInterest loans;
          noInterestRate =
            (if Num 0 < len loans
               then ((len loans - len loansWithInterest) / len loans) * Num 100
             else Num 0);
          interestRiskScore =
            (if Num 70 < noInterestRate then Num 60
             else if Num 40 < noInterestRate then Num 30 else Num 10)
      in \<lparr> name = ''Interest Rate Risk'', score = interestRiskScore,
           impact = (if Num 70 < noInterestRate then ''Medium''
                     else if Num 40 < noInterestRate then ''Low'' else ''Very Low''),
           recommendation =
             (if Num 70 < noInterestRate
                then ''Consider implementing interest rates to improve returns''
              else if Num 40 < noInterestRate
                then ''Review interest rate strategy for better profitability''
              else ''Good balance of interest-bearing loans'') \<rparr>)"

definition velocityFactor :: "Loan list \<Rightarrow> RiskFactor" where
  "velocityFactor loans =
     (let paidLoans = len (filter isPaid loans);
          paymentRate =
            (if Num 0 < len loans then (paidLoans / len loans) * Num 100 else Num 0);
          velocityScore =
            (if paymentRate < Num 50 then Num 70
             else if paymentRate < Num 70 then Num 40 else Num 20)
      in \<lparr> name = ''Payment Velocity'', score = velocityScore,
           impact = (if paymentRate < Num 50 then ''High''
                     else if paymentRate < Num 70 then ''Medium'' else ''Low''),
           recommendation =
             (if paymentRate < Num 50
                then ''Improve collection processes and borrower communication''
              else if paymentRate < Num 70
                then ''Enhance payment reminders and follow-up procedures''
              else ''Excellent payment collection rate'') \<rparr>)"

definition sizeFactor :: "Loan list \<Rightarrow> RiskFactor" where
  "sizeFactor loans =
     (let portfolioSize = len loans;
          sizeScore =
            (if portfolioSize < Num 5 then Num 40
             else if portfolioSize < Num 10 then Num 20 else Num 10)
      in \<lparr> name = ''Portfolio Size'', score = sizeScore,
           impact = (if portfolioSize < Num 5 then ''Medium''
                     else if portfolioSize < Num 10 then ''Low'' else ''Very Low''),
           recommendation =
             (if portfolioSize < Num 5
                then ''Consider expanding portfolio for better risk distribution''
              else if portfolioSize < Num 10
                then ''Good portfolio size, continue steady growth''
              else ''Well-diversified portfolio size'') \<rparr>)"

definition summaryHigh :: string where
  "summaryHigh = ''High risk portfolio requiring immediate attention. Focus on overdue collections and risk mitigation strategies.''"

definition summaryModerate :: string where
  "summaryModerate = ''Moderate risk portfolio. Monitor key metrics closely and implement preventive measures.''"

definition summaryLow :: string where
  "summaryLow = ''Low risk portfolio with good fundamentals. Maintain current practices and continue monitoring.''"

definition generateRiskAssessment ::
    "(string \<Rightarrow> date) \<Rightarrow> int \<Rightarrow> Loan list \<Rightarrow> RiskAssessment" where
  "generateRiskAssessment parse now loans =
     (let factors = [] @ [overdueFactor parse now loans] @ [concentrationFactor loans]
            @ [interestFactor loans] @ [velocityFactor loans] @ [sizeFactor loans];
          totalRiskScore = weightedScore factors;
          summary =
            (if Num 70 \<le> totalRiskScore then summaryHigh
             else if Num 40 \<le> totalRiskScore then summaryModerate
             else summaryLow)
      in \<lparr> overallRisk = Math_round totalRiskScore, factors = factors, summary = summary \<rparr>)"

text \<open>
  The band the dashboard colours the overall risk with
  (\<^verbatim>\<open>riskData.overallRisk >= 70 ? 'red' : riskData.overallRisk >= 40 ? 'yellow' : 'green'\<close>).
\<close>

definition overallRiskColor :: "RiskAssessment \<Rightarrow> string" where
  "overallRiskColor riskData =
     (if Num 70 \<le> overallRisk riskData then ''red''
      else if Num 40 \<le> overallRisk riskData then ''yellow'' else ''green'')"

section \<open>Date validation\<close>

text \<open>\<^verbatim>\<open>isValidDate\<close>: \<^verbatim>\<open>!isNaN(date.getTime()) && date > new Date()\<close>.\<close>

definition isValidDate :: "(string \<Rightarrow> date) \<Rightarrow> int \<Rightarrow> string \<Rightarrow> bool" where
  "isValidDate parse now dateString =
     (let date = parse dateString in date \<noteq> None \<and> date_lt (Some now) date)"

text \<open>
  A date-only string \<^verbatim>\<open>YYYY-MM-DD\<close> denotes the UTC midnight that begins its day. For
  the calendar day that is today in the user's zone this is the instant below.
\<close>

definition startOfLocalDay :: "TimeZone \<Rightarrow> int \<Rightarrow> int" where
  "startOfLocalDay zone now = ((now + offsetAtUTC zone now) div 86400000) * 86400000"

section \<open>Well-formed loans\<close>

text \<open>
  The input layer admits finite, non-negative amounts and rates only. For such loans every
  total is a finite number, and sums of totals are sums of rationals.
\<close>

fun isFinite :: "number \<Rightarrow> bool" where
  "isFinite (Num a) = True"
| "isFinite x = False"

definition finiteLoan :: "Loan \<Rightarrow> bool" where
  "finiteLoan loan =
     (isFinite (amount loan)
      \<and> (case interestRate loan of None \<Rightarrow> True | Some r \<Rightarrow> isFinite r))"

fun nonNegNum :: "number \<Rightarrow> bool" where
  "nonNegNum (Num a) = (0 \<le> a)"
| "nonNegNum x = False"

definition nonNegativeLoan :: "Loan \<Rightarrow> bool" where
  "nonNegativeLoan loan =
     (nonNegNum (amount loan)
      \<and> (case interestRate loan of None \<Rightarrow> True | Some r \<Rightarrow> nonNegNum r))"

text \<open>
  The values a sum of non-negative totals can take in double precision: a non-negative
  finite number or \<^verbatim>\<open>Infinity\<close>, and among these the ones that are binary64 values.
\<close>

fun nonNeg :: "number \<Rightarrow> bool" where
  "nonNeg (Num y) = (0 \<le> y)"
| "nonNeg PosInfinity = True"
| "nonNeg x = False"

fun nonNegDouble :: "number \<Rightarrow> bool" where
  "nonNegDouble (Num y) = (0 \<le> y \<and> toDouble y = Num y)"
| "nonNegDouble PosInfinity = True"
| "nonNegDouble x = False"

fun ratOf :: "number \<Rightarrow> rat" where
  "ratOf (Num a) = a"
| "ratOf x = 0"

definition ratTotal :: "Loan list \<Rightarrow> rat" where
  "ratTotal loans = sum_list (map (\<lambda>l. ratOf (calculateTotalWithInterest l)) loans)"

section \<open>Lender groups\<close>

text \<open>
  The loans of one lender, the statistics the grouping loop accumulates for them, and the
  invariant of that loop: the map holds, once per lender seen so far, the statistics of
  that lender's loans among the loans processed.
\<close>

definition lenderLoans :: "string \<Rightarrow> Loan list \<Rightarrow> Loan list" where
  "lenderLoans lender loans = filter (\<lambda>l. lenderName l = lender) loans"

definition groupData :: "(string \<Rightarrow> date) \<Rightarrow> int \<Rightarrow> string \<Rightarrow> Loan list \<Rightarrow> LenderData" where
  "groupData parse now lender loans =
     \<lparr> loans_d = lenderLoans lender loans,
       totalAmount_d = sumTotals (lenderLoans lender loans),
       paidLoans_d = len (filter isPaid (lenderLoans lender loans)),
       overdueLoans_d = len (filter (isOverdue parse now) (lenderLoans lender loans)) \<rparr>"

definition grouped ::
    "(string \<Rightarrow> date) \<Rightarrow> int \<Rightarrow> (string \<times> LenderData) list \<Rightarrow> Loan list \<Rightarrow> bool" where
  "grouped parse now m ls =
     (distinct (map fst m)
      \<and> (\<forall>k. Map_get m k =
             (if k \<in> lenderName ` set ls then Some (groupData parse now k ls) else None)))"

text \<open>The overdue rate of an entry of the analysis, from the entry's own counts.\<close>

definition overdueRate_l :: "LenderAnalysis \<Rightarrow> number" where
  "overdueRate_l e = (overdueLoans_l e / totalLoans_l e) * Num 100"

section \<open>Example data\<close>

text \<open>
  The examples are evaluated at noon UTC of 3 November 2026; \<open>exampleParse\<close> gives the
  time values of the date strings they use and Invalid Date for any other string.
\<close>

definition exampleNow :: int where
  "exampleNow = 1793707200000"

definition exampleParse :: "string \<Rightarrow> date" where
  "exampleParse s =
     (if s = ''2026-10-03'' then Some 1790985600000
      else if s = ''2026-11-02'' then Some 1793577600000
      else if s = ''2026-11-03'' then Some 1793664000000
      else if s = ''2026-11-04'' then Some 1793750400000
      else None)"

definition exampleLoan :: "string \<Rightarrow> rat \<Rightarrow> rat option \<Rightarrow> string \<Rightarrow> bool \<Rightarrow> Loan" where
  "exampleLoan lender a r due paid =
     \<lparr> id_loan = ''loan'', lenderName = lender, phoneNumber = ''08012345678'',
       amount = Num a, repaymentDate = due, interestRate = map_option Num r, isPaid = paid \<rparr>"

text \<open>
  UTC, and a zone one hour ahead of it all year (Africa/Lagos); half past midnight of
  4 November 2026 in that zone.
\<close>

definition utcZone :: TimeZone where
  "utcZone = \<lparr> offsetAtUTC = (\<lambda>t. 0), offsetAtLocal = (\<lambda>t. 0) \<rparr>"

definition lagosZone :: TimeZone where
  "lagosZone = \<lparr> offsetAtUTC = (\<lambda>t. 3600000), offsetAtLocal = (\<lambda>t. 3600000) \<rparr>"

definition lagosNow :: int where
  "lagosNow = 1793748600000"

text \<open>A loan of 23 at 12 percent.\<close>

definition roundingExample :: Loan where
  "roundingExample = exampleLoan ''Ada'' 23 (Some 12) ''2026-11-04'' False"

text \<open>Two paid loans, due the day before and a month before, and one unpaid loan.\<close>

definition paidExamples :: "Loan list" where
  "paidExamples =
     [exampleLoan ''Ada'' 10000 (Some 10) ''2026-11-02'' True,
      exampleLoan ''Bola'' 25000 (Some 5) ''2026-11-04'' False,
      exampleLoan ''Chidi'' 22000 None ''2026-10-03'' True]"

text \<open>One paid loan of \<open>2^1023\<close> at 100 percent, due the day before the evaluation.\<close>

definition overflowExamples :: "Loan list" where
  "overflowExamples = [exampleLoan ''Ada'' (2 ^ 1023) (Some 100) ''2026-11-02'' True]"

text \<open>Four lenders; Acme has three loans, two of them overdue.\<close>

definition lenderExamples :: "Loan list" where
  "lenderExamples =
     [exampleLoan ''Acme'' 50000 (Some 10) ''2026-11-02'' False,
      exampleLoan ''Bola'' 25000 (Some 5) ''2026-11-04'' False,
      exampleLoan ''Acme'' 20000 None ''2026-10-03'' False,
      exampleLoan ''Dayo'' 1000 None ''2026-10-03'' True,
      exampleLoan ''Acme'' 75000 None ''2026-10-03'' True,
      exampleLoan ''Chidi'' 175000 None ''2026-10-03'' True,
      exampleLoan ''Dayo'' 1000 None ''2026-11-04'' False]"

text \<open>
  Fourteen unpaid loans of one lender without interest, six of them due the day before
  the evaluation and eight the day after.
\<close>

definition boundaryExamples :: "Loan list" where
  "boundaryExamples =
     replicate 6 (exampleLoan ''Acme'' 100 None ''2026-11-02'' False)
     @ replicate 8 (exampleLoan ''Acme'' 100 None ''2026-11-04'' False)"

section \<open>Properties of the loan model\<close>

lemma truthy_pos: "Num 0 < r \<Longrightarrow> truthy r"
  by (cases r) auto

section \<open>Rounding to binary64\<close>

lemma binade_bounds:
  assumes "0 < x"
  shows "2 powi binade x \<le> x \<and> x < 2 powi (binade x + 1)"
proof (cases "1 \<le> x")
  case True
  let ?n = "\<lfloor>x\<rfloor>"
  have n: "0 < ?n" using True by simp
  have b1: "1 \<le> bitlen ?n" using n by (simp add: bitlen_ge_iff_power)
  have lo: "(2::int) ^ nat (bitlen ?n - 1) \<le> ?n" and hi: "?n < 2 ^ nat (bitlen ?n)"
    using bitlen_bounds [OF n] by simp_all
  have "(of_int ((2::int) ^ nat (bitlen ?n - 1)) :: rat) \<le> of_int ?n"
    using lo by (simp only: of_int_le_iff)
  then have 1: "(2::rat) ^ nat (bitlen ?n - 1) \<le> x"
    by (simp add: le_floor_iff)
  have "?n + 1 \<le> 2 ^ nat (bitlen ?n)" using hi by simp
  then have "(of_int (?n + 1) :: rat) \<le> of_int (2 ^ nat (bitlen ?n))"
    by (simp only: of_int_le_iff)
  then have 2: "x < (2::rat) ^ nat (bitlen ?n)"
    by (simp add: floor_less_iff) linarith
  show ?thesis
    using 1 2 b1 True by (simp add: binade_def power_int_def)
next
  case False
  let ?z = "1 / x"
  let ?m = "\<lceil>?z\<rceil> - 1"
  have z: "1 < ?z" using False assms by simp
  have m: "0 < ?m" using z by (simp add: less_ceiling_iff)
  have mz: "of_int ?m < ?z" "?z \<le> of_int ?m + 1"
    by (simp_all add: ceiling_correct)
  have b1: "1 \<le> bitlen ?m" using m by (simp add: bitlen_ge_iff_power)
  have lo: "(2::int) ^ nat (bitlen ?m - 1) \<le> ?m" and hi: "?m < 2 ^ nat (bitlen ?m)"
    using bitlen_bounds [OF m] by simp_all
  have "(of_int ((2::int) ^ nat (bitlen ?m - 1)) :: rat) \<le> of_int ?m"
    using lo by (simp only: of_int_le_iff)
  moreover have "(of_int ((2::int) ^ nat (bitlen ?m - 1)) :: rat) = 2 ^ nat (bitlen ?m - 1)"
    by simp
  ultimately have 1: "(2::rat) ^ nat (bitlen ?m - 1) < ?z"
    using mz(1) by (simp only:)
  have "?m + 1 \<le> 2 ^ nat (bitlen ?m)" using hi by simp
  then have "(of_int (?m + 1) :: rat) \<le> of_int (2 ^ nat (bitlen ?m))"
    by (simp only: of_int_le_iff)
  moreover have "?z \<le> of_int (?m + 1)"
    using mz(2) by simp
  moreover have "(of_int (2 ^ nat (bitlen ?m)) :: rat) = 2 ^ nat (bitlen ?m)"
    by simp
  ultimately have 2: "?z \<le> (2::rat) ^ nat (bitlen ?m)"
    by (simp only:)
  have lo': "1 / (2::rat) ^ nat (bitlen ?m) \<le> x"
    using 2 assms by (simp add: field_simps)
  have hi': "x < 1 / (2::rat) ^ nat (bitlen ?m - 1)"
    using 1 assms by (simp add: field_simps)
  have e1: "(2::rat) powi (- bitlen ?m) = 1 / 2 ^ nat (bitlen ?m)"
    using b1 by (simp add: power_int_def field_simps)
  have e2: "(2::rat) powi (1 - bitlen ?m) = 1 / 2 ^ nat (bitlen ?m - 1)"
  proof -
    have "1 - bitlen ?m = - (bitlen ?m - 1)" by simp
    then have "(2::rat) powi (1 - bitlen ?m) = 2 powi (- (bitlen ?m - 1))" by simp
    also have "\<dots> = 1 / 2 powi (bitlen ?m - 1)" by (rule power_int_minus_divide)
    also have "\<dots> = 1 / 2 ^ nat (bitlen ?m - 1)"
      using b1 by (simp add: power_int_def)
    finally show ?thesis .
  qed
  show ?thesis
    using False lo' hi' by (simp add: binade_def e1 e2)
qed

lemma binade_unique:
  assumes "2 powi e \<le> x" and "x < 2 powi (e + 1)"
  shows "binade x = e"
proof -
  have x: "0 < x"
    using assms(1) zero_less_power_int [of "2::rat" e] by linarith
  have b: "2 powi binade x \<le> x" "x < 2 powi (binade x + 1)"
    using binade_bounds [OF x] by simp_all
  have 1: "e < binade x + 1"
  proof (rule ccontr)
    assume "\<not> e < binade x + 1"
    then have "(2::rat) powi (binade x + 1) \<le> 2 powi e"
      by (intro power_int_increasing) simp_all
    then show False using assms(1) b(2) by linarith
  qed
  have 2: "binade x < e + 1"
  proof (rule ccontr)
    assume "\<not> binade x < e + 1"
    then have "(2::rat) powi (e + 1) \<le> 2 powi binade x"
      by (intro power_int_increasing) simp_all
    then show False using assms(2) b(1) by linarith
  qed
  show ?thesis using 1 2 by simp
qed

lemma binade_mono:
  assumes "0 < x" and "x \<le> y"
  shows "binade x \<le> binade y"
proof (rule ccontr)
  assume "\<not> binade x \<le> binade y"
  then have "(2::rat) powi (binade y + 1) \<le> 2 powi binade x"
    by (intro power_int_increasing) simp_all
  moreover have "y < 2 powi (binade y + 1)"
    using binade_bounds [of y] assms by simp
  moreover have "2 powi binade x \<le> x"
    using binade_bounds [OF assms(1)] by simp
  ultimately show False using assms(2) by linarith
qed

lemma roundEven_lower: "\<lfloor>m\<rfloor> \<le> roundEven m"
  by (simp add: roundEven_def Let_def)

lemma roundEven_upper: "roundEven m \<le> \<lceil>m\<rceil>"
proof -
  have "m \<noteq> of_int \<lfloor>m\<rfloor> \<Longrightarrow> \<lceil>m\<rceil> = \<lfloor>m\<rfloor> + 1"
    by (metis ceiling_altdef)
  moreover have "m = of_int \<lfloor>m\<rfloor> \<Longrightarrow> roundEven m = \<lfloor>m\<rfloor>"
    by (simp add: roundEven_def Let_def)
  moreover have "roundEven m \<le> \<lfloor>m\<rfloor> + 1"
    by (simp add: roundEven_def Let_def)
  ultimately show ?thesis
    by (cases "m = of_int \<lfloor>m\<rfloor>") (simp_all add: ceiling_altdef)
qed

lemma roundEven_of_int [simp]: "roundEven (of_int k) = k"
  by (simp add: roundEven_def Let_def)

lemma roundEven_mono:
  assumes "m \<le> m'"
  shows "roundEven m \<le> roundEven m'"
proof (cases "\<lfloor>m\<rfloor> = \<lfloor>m'\<rfloor>")
  case True
  then have "m - of_int \<lfloor>m\<rfloor> \<le> m' - of_int \<lfloor>m'\<rfloor>"
    using assms by simp
  then show ?thesis
    using True by (auto simp: roundEven_def Let_def)
next
  case False
  have "\<lfloor>m\<rfloor> \<le> \<lfloor>m'\<rfloor>" using assms by (rule floor_mono)
  then have "\<lfloor>m\<rfloor> + 1 \<le> \<lfloor>m'\<rfloor>" using False by simp
  moreover have "roundEven m \<le> \<lfloor>m\<rfloor> + 1"
    by (simp add: roundEven_def Let_def)
  ultimately show ?thesis
    using roundEven_lower [of m'] by linarith
qed

lemma ulp_pos [simp]: "0 < ulp x"
  by (simp add: ulp_def)

lemma ulp_nonneg [simp]: "0 \<le> ulp x"
  by (simp add: ulp_def)

lemma ulp_neq0 [simp]: "ulp x \<noteq> 0"
  by (simp add: ulp_def)

lemma roundEven_zero [simp]: "roundEven 0 = 0"
  using roundEven_of_int [of 0] by simp

lemma ulp_scale: "2 ^ 53 * ulp x = 2 powi (max (binade x) (- 1022) + 1)"
  using power_int_add [of "2::rat" "max (binade x) (- 1022) - 52" 53]
  by (simp add: ulp_def add.commute mult.commute)

lemma ulp_scale': "2 ^ 52 * ulp x = 2 powi (max (binade x) (- 1022))"
  using power_int_add [of "2::rat" "max (binade x) (- 1022) - 52" 52]
  by (simp add: ulp_def add.commute mult.commute)

lemma scaled_upper:
  assumes "0 < x"
  shows "x / ulp x < 2 ^ 53"
proof -
  have "x < 2 powi (binade x + 1)"
    using binade_bounds [OF assms] by simp
  also have "\<dots> \<le> 2 powi (max (binade x) (- 1022) + 1)"
    by (intro power_int_increasing) simp_all
  also have "\<dots> = 2 ^ 53 * ulp x"
    by (simp only: ulp_scale)
  finally show ?thesis
    by (simp add: pos_divide_less_eq)
qed

lemma scaled_lower:
  assumes "0 < x" and "- 1022 \<le> binade x"
  shows "2 ^ 52 \<le> x / ulp x"
proof -
  have "2 ^ 52 * ulp x = 2 powi (binade x)"
    using assms(2) by (simp only: ulp_scale') (simp add: max_def)
  also have "\<dots> \<le> x"
    using binade_bounds [OF assms(1)] by simp
  finally show ?thesis
    by (simp add: pos_le_divide_eq)
qed

lemma roundEven_le_int: "m \<le> of_int k \<Longrightarrow> roundEven m \<le> k"
  using roundEven_upper [of m] by (simp add: ceiling_le_iff order_trans [OF _ iffD2 [OF ceiling_le_iff]])

lemma roundEven_ge_int: "of_int k \<le> m \<Longrightarrow> k \<le> roundEven m"
  using roundEven_lower [of m] by (meson le_floor_iff order_trans)

lemma nearest_upper:
  assumes "0 < x"
  shows "nearest x \<le> 2 powi (max (binade x) (- 1022) + 1)"
proof -
  have "x / ulp x \<le> of_int (2 ^ 53)"
    using scaled_upper [OF assms] by simp
  then have "roundEven (x / ulp x) \<le> 2 ^ 53"
    by (rule roundEven_le_int)
  then have "(of_int (roundEven (x / ulp x)) :: rat) \<le> of_int (2 ^ 53)"
    by (simp only: of_int_le_iff)
  then have "of_int (roundEven (x / ulp x)) * ulp x \<le> 2 ^ 53 * ulp x"
    by (simp add: mult_right_mono)
  then show ?thesis
    by (simp only: nearest_def ulp_scale)
qed

lemma nearest_lower:
  assumes "0 < x" and "- 1022 \<le> binade x"
  shows "2 powi (binade x) \<le> nearest x"
proof -
  have "of_int (2 ^ 52) \<le> x / ulp x"
    using scaled_lower [OF assms] by simp
  then have "2 ^ 52 \<le> roundEven (x / ulp x)"
    by (rule roundEven_ge_int)
  then have "(of_int (2 ^ 52) :: rat) \<le> of_int (roundEven (x / ulp x))"
    by (simp only: of_int_le_iff)
  then have "2 ^ 52 * ulp x \<le> of_int (roundEven (x / ulp x)) * ulp x"
    by (simp add: mult_right_mono)
  moreover have "2 ^ 52 * ulp x = 2 powi (binade x)"
    using assms(2) by (simp only: ulp_scale') (simp add: max_def)
  ultimately show ?thesis
    by (simp only: nearest_def)
qed

lemma nearest_nonneg:
  assumes "0 \<le> x"
  shows "0 \<le> nearest x"
proof -
  have "0 \<le> x / ulp x"
    by (rule divide_nonneg_pos [OF assms ulp_pos])
  then have "0 \<le> roundEven (x / ulp x)"
    using roundEven_ge_int [of 0] by simp
  then show ?thesis by (simp add: nearest_def)
qed

lemma nearest_mono:
  assumes "0 < x" and "x \<le> y"
  shows "nearest x \<le> nearest y"
proof -
  let ?ex = "max (binade x) (- 1022)"
  let ?ey = "max (binade y) (- 1022)"
  have y: "0 < y" using assms by linarith
  have e: "?ex \<le> ?ey" using binade_mono [OF assms] by simp
  show ?thesis
  proof (cases "?ex = ?ey")
    case True
    then have u: "ulp x = ulp y" by (simp add: ulp_def)
    have "x / ulp y \<le> y / ulp y"
      by (rule divide_right_mono [OF assms(2)]) (rule less_imp_le [OF ulp_pos])
    then have "roundEven (x / ulp y) \<le> roundEven (y / ulp y)"
      by (rule roundEven_mono)
    then have "(of_int (roundEven (x / ulp y)) :: rat) \<le> of_int (roundEven (y / ulp y))"
      by (simp only: of_int_le_iff)
    then show ?thesis
      by (simp add: nearest_def u mult_right_mono)
  next
    case False
    then have lt: "?ex + 1 \<le> ?ey" using e by simp
    then have ey: "- 1022 \<le> binade y" "?ey = binade y" by (simp_all add: max_def split: if_splits)
    have "nearest x \<le> 2 powi (?ex + 1)" by (rule nearest_upper [OF assms(1)])
    also have "\<dots> \<le> 2 powi ?ey"
      using lt by (intro power_int_increasing) simp_all
    also have "\<dots> = 2 powi binade y" using ey(2) by simp
    also have "\<dots> \<le> nearest y" by (rule nearest_lower [OF y ey(1)])
    finally show ?thesis .
  qed
qed

lemma nearest_zero [simp]: "nearest 0 = 0"
  using roundEven_of_int [of 0] by (simp add: nearest_def)

lemma nearest_integral:
  assumes "x / ulp x = of_int k"
  shows "nearest x = x"
  using assms by (simp add: nearest_def) (metis nonzero_divide_eq_eq ulp_pos less_irrefl)

lemma binade_le:
  assumes "0 < y" and "y < 2 powi (e + 1)"
  shows "binade y \<le> e"
proof (rule ccontr)
  assume "\<not> binade y \<le> e"
  then have "(2::rat) powi (e + 1) \<le> 2 powi binade y"
    by (intro power_int_increasing) simp_all
  then show False
    using binade_bounds [OF assms(1)] assms(2) by linarith
qed

lemma binade_ge:
  assumes "2 powi e \<le> y"
  shows "e \<le> binade y"
proof (rule ccontr)
  have y: "0 < y"
    using assms zero_less_power_int [of "2::rat" e] by linarith
  assume "\<not> e \<le> binade y"
  then have "(2::rat) powi (binade y + 1) \<le> 2 powi e"
    by (intro power_int_increasing) simp_all
  then show False
    using binade_bounds [OF y] assms by linarith
qed

lemma nearest_idem:
  assumes "0 < x"
  shows "nearest (nearest x) = nearest x"
proof (cases "nearest x = 0")
  case True
  then show ?thesis by simp
next
  case False
  let ?E = "max (binade x) (- 1022)"
  let ?n = "roundEven (x / ulp x)"
  let ?y = "nearest x"
  have y: "0 < ?y"
    using False nearest_nonneg [of x] assms by simp
  have yn: "?y = of_int ?n * ulp x" by (simp add: nearest_def)
  have up: "?y \<le> 2 powi (?E + 1)" by (rule nearest_upper [OF assms])
  show ?thesis
  proof (cases "?y = 2 powi (?E + 1)")
    case True
    have "2 powi (?E + 1) \<le> ?y" using True by simp
    moreover have "?y < 2 powi (?E + 1 + 1)"
      using True power_int_strict_increasing [of "?E + 1" "?E + 1 + 1" "2::rat"] by simp
    ultimately have b: "binade ?y = ?E + 1" by (rule binade_unique)
    have "ulp ?y = 2 powi (?E + 1 - 52)"
      by (simp add: ulp_def b max_def)
    moreover have "(2::rat) powi (?E + 1) = 2 powi (?E + 1 - 52) * 2 powi 52"
      using power_int_add [of "2::rat" "?E + 1 - 52" 52] by (simp add: add.commute)
    ultimately have "?y / ulp ?y = of_int (2 ^ 52)"
      using True by simp
    then show ?thesis by (rule nearest_integral)
  next
    case ne: False
    then have lt: "?y < 2 powi (?E + 1)" using up by simp
    have le: "binade ?y \<le> ?E" by (rule binade_le [OF y lt])
    have "max (binade ?y) (- 1022) = ?E"
    proof (cases "- 1022 \<le> binade x")
      case True
      have "2 powi binade x \<le> ?y" by (rule nearest_lower [OF assms True])
      then have "binade x \<le> binade ?y" by (rule binade_ge)
      then show ?thesis using le True by (simp add: max_def)
    next
      case False
      then show ?thesis using le by (simp add: max_def)
    qed
    then have "ulp ?y = ulp x" by (simp add: ulp_def)
    then have "?y / ulp ?y = of_int ?n"
      using yn by simp
    then show ?thesis by (rule nearest_integral)
  qed
qed

subsection \<open>Rounding rationals to numbers\<close>

lemma toDouble_zero [simp]: "toDouble 0 = Num 0"
  by (simp add: toDouble_def)

lemma toDouble_pos:
  "0 < x \<Longrightarrow> toDouble x = (if 2 ^ 1024 \<le> nearest x then PosInfinity else Num (nearest x))"
  by (simp add: toDouble_def Let_def)

lemma toDouble_nonNegDouble:
  assumes "0 \<le> x"
  shows "nonNegDouble (toDouble x)"
proof (cases "x = 0")
  case True
  then show ?thesis by simp
next
  case False
  then have x: "0 < x" using assms by simp
  show ?thesis
  proof (cases "2 ^ 1024 \<le> nearest x")
    case True
    then show ?thesis using x by (simp add: toDouble_pos)
  next
    case small: False
    have n: "0 \<le> nearest x" by (rule nearest_nonneg [OF assms])
    have "toDouble (nearest x) = Num (nearest x)"
    proof (cases "nearest x = 0")
      case True
      then show ?thesis by simp
    next
      case False
      then have "0 < nearest x" using n by simp
      then show ?thesis
        using small by (simp add: toDouble_pos nearest_idem [OF x])
    qed
    then show ?thesis using x small n by (simp add: toDouble_pos)
  qed
qed

lemma nonNegDouble_nonNeg: "nonNegDouble v \<Longrightarrow> nonNeg v"
  by (cases v) simp_all

lemma toDouble_mono:
  assumes "0 \<le> x" and "x \<le> y"
  shows "toDouble x \<le> toDouble y"
proof (cases "x = 0")
  case True
  have "nonNeg (toDouble y)"
    using assms True toDouble_nonNegDouble [of y] nonNegDouble_nonNeg by simp
  then show ?thesis
    using True by (cases "toDouble y") (auto simp: less_eq_number_def)
next
  case False
  then have x: "0 < x" using assms by simp
  then have y: "0 < y" using assms by linarith
  have "nearest x \<le> nearest y" by (rule nearest_mono [OF x assms(2)])
  then show ?thesis
    using x y by (auto simp: toDouble_pos less_eq_number_def)
qed

lemma toDouble_overflow:
  assumes "2 ^ 1024 \<le> x"
  shows "toDouble x = PosInfinity"
proof -
  have x: "0 < x" using assms by (rule less_le_trans [rotated]) simp
  have "(2::rat) powi 1024 \<le> x" using assms by simp
  then have b: "1024 \<le> binade x" by (rule binade_ge)
  have "(2::rat) ^ 1024 = 2 powi 1024" by simp
  also have "\<dots> \<le> 2 powi binade x"
    using b by (intro power_int_increasing) simp_all
  also have "\<dots> \<le> nearest x"
    using b by (intro nearest_lower [OF x]) simp
  finally show ?thesis using x by (simp add: toDouble_pos)
qed

lemma toDouble_of_nat:
  assumes "n < 2 ^ 53"
  shows "toDouble (of_nat n) = Num (of_nat n)"
proof (cases "n = 0")
  case True
  then show ?thesis by simp
next
  case False
  let ?x = "of_nat n :: rat"
  have x: "0 < ?x" using False by simp
  have x1: "1 \<le> ?x" using False by (simp add: Suc_le_eq)
  have "(2::rat) powi 0 \<le> ?x" using x1 by simp
  then have b0: "0 \<le> binade ?x" by (rule binade_ge)
  have "?x < 2 ^ 53" using assms by (metis of_nat_less_iff of_nat_numeral of_nat_power)
  then have "?x < 2 powi (52 + 1)" by simp
  then have b52: "binade ?x \<le> 52" by (rule binade_le [OF x])
  let ?k = "nat (52 - binade ?x)"
  have u: "ulp ?x = 2 powi (binade ?x - 52)" using b0 by (simp add: ulp_def max_def)
  have "(2::rat) powi (binade ?x - 52) = 1 / 2 powi (52 - binade ?x)"
    using power_int_minus_divide [of "2::rat" "52 - binade ?x"] by simp
  also have "\<dots> = 1 / 2 ^ ?k" using b52 by (simp add: power_int_def)
  finally have "?x / ulp ?x = ?x * 2 ^ ?k" by (simp add: u)
  also have "\<dots> = of_int (int n * 2 ^ ?k)" by simp
  finally have "nearest ?x = ?x" by (rule nearest_integral)
  moreover have "?x < 2 ^ 1024"
    using \<open>?x < 2 ^ 53\<close> by (rule less_trans) simp
  ultimately show ?thesis using x by (simp add: toDouble_pos)
qed


lemma toDouble_numeral [simp]:
  "numeral k < (2::nat) ^ 53 \<Longrightarrow> toDouble (numeral k) = Num (numeral k)"
  using toDouble_of_nat [of "numeral k"] by simp


section \<open>The total with interest\<close>

lemma round_276: "toDouble (69 / 25) = Num (1553741871442821 / 562949953421312)"
  by code_simp

lemma round_2576:
  "toDouble (14501590800132997 / 562949953421312) = Num (3625397700033249 / 140737488355328)"
  by code_simp

text \<open>
  The total of 23 at 12 percent is computed as 25.759999999999998, the binary64 value
  below, and not as 25.76.
\<close>

theorem total_rounded_counterexample:
  "amount roundingExample = Num 23
   \<and> interestRate roundingExample = Some (Num 12)
   \<and> calculateTotalWithInterest64 roundingExample
       = Num (3625397700033249 / 140737488355328)
   \<and> calculateTotalWithInterest64 roundingExample \<noteq> Num (23 * (1 + 12 / 100))
   \<and> calculateTotalWithInterest64 roundingExample \<noteq> Num (23 + 23 * 12 / 100)"
  by (simp add: roundingExample_def exampleLoan_def calculateTotalWithInterest64_def
        add64_def mul64_def div64_def round_276 round_2576)

text \<open>
  Claim C1, as the code has it. A loan without an interest rate, or with the rate 0,
  totals to its amount. A loan with a rate \<open>r > 0\<close> totals to \<open>amount + amount * r / 100\<close>
  evaluated in double precision, the product, the quotient and the sum each rounded to the
  nearest binary64 value. The total is \<open>amount * (1 + r / 100)\<close> exactly when these three
  intermediate values are binary64 values, as they are for 50000 at 10 percent.
\<close>

theorem total_rounded:
  "(interestRate loan = None \<or> interestRate loan = Some (Num 0)
      \<longrightarrow> calculateTotalWithInterest64 loan = amount loan)
   \<and> (\<forall>r. interestRate loan = Some r \<and> Num 0 < r
      \<longrightarrow> calculateTotalWithInterest64 loan
            = add64 (amount loan) (div64 (mul64 (amount loan) r) (Num 100)))
   \<and> (\<forall>a r. amount loan = Num a \<and> interestRate loan = Some (Num r) \<and> 0 < r
         \<and> toDouble (a * r) = Num (a * r)
         \<and> toDouble (a * r / 100) = Num (a * r / 100)
         \<and> toDouble (a + a * r / 100) = Num (a + a * r / 100)
      \<longrightarrow> calculateTotalWithInterest64 loan = Num (a * (1 + r / 100)))"
proof (intro conjI allI impI)
  assume "interestRate loan = None \<or> interestRate loan = Some (Num 0)"
  then show "calculateTotalWithInterest64 loan = amount loan"
    by (auto simp: calculateTotalWithInterest64_def)
next
  fix r assume "interestRate loan = Some r \<and> Num 0 < r"
  then show "calculateTotalWithInterest64 loan
            = add64 (amount loan) (div64 (mul64 (amount loan) r) (Num 100))"
    by (simp add: calculateTotalWithInterest64_def truthy_pos)
next
  fix a r
  assume h: "amount loan = Num a \<and> interestRate loan = Some (Num r) \<and> 0 < r
         \<and> toDouble (a * r) = Num (a * r)
         \<and> toDouble (a * r / 100) = Num (a * r / 100)
         \<and> toDouble (a + a * r / 100) = Num (a + a * r / 100)"
  have "a * (1 + r / 100) = a + a * r / 100" by (simp add: algebra_simps)
  then show "calculateTotalWithInterest64 loan = Num (a * (1 + r / 100))"
    using h by (simp add: calculateTotalWithInterest64_def add64_def mul64_def div64_def)
qed

text \<open>The amount 50000 at 10 percent totals to 55000; without a rate it stays 50000.\<close>

theorem total_rounded_witness:
  "amount (exampleLoan ''Ada'' 50000 (Some 10) ''2026-11-04'' False) = Num 50000
   \<and> interestRate (exampleLoan ''Ada'' 50000 (Some 10) ''2026-11-04'' False) = Some (Num 10)
   \<and> (0::rat) < 10
   \<and> toDouble (50000 * 10) = Num (50000 * 10)
   \<and> toDouble (50000 * 10 / 100) = Num (50000 * 10 / 100)
   \<and> toDouble (50000 + 50000 * 10 / 100) = Num (50000 + 50000 * 10 / 100)
   \<and> calculateTotalWithInterest64 (exampleLoan ''Ada'' 50000 (Some 10) ''2026-11-04'' False)
       = Num 55000
   \<and> interestRate (exampleLoan ''Ada'' 50000 None ''2026-11-04'' False) = None
   \<and> calculateTotalWithInterest64 (exampleLoan ''Ada'' 50000 None ''2026-11-04'' False)
       = Num 50000"
  using total_rounded [of "exampleLoan ''Ada'' 50000 (Some 10) ''2026-11-04'' False"]
        total_rounded [of "exampleLoan ''Ada'' 50000 None ''2026-11-04'' False"]
  by (simp add: exampleLoan_def add64_def mul64_def div64_def)

section \<open>Paid and overdue loans\<close>

text \<open>
  Claim C2. A paid loan is not overdue, whatever its repayment date and whatever the
  time of the evaluation.
\<close>

theorem paid_never_overdue: "isPaid loan \<Longrightarrow> \<not> isOverdue parse now loan"
  by (simp add: isOverdue_def)

text \<open>A paid loan that was due a month before the evaluation.\<close>

theorem paid_never_overdue_witness:
  "isPaid (exampleLoan ''Ada'' 75000 None ''2026-10-03'' True)
   \<and> exampleParse ''2026-10-03'' = Some 1790985600000
   \<and> 1790985600000 < exampleNow
   \<and> \<not> isOverdue exampleParse exampleNow (exampleLoan ''Ada'' 75000 None ''2026-10-03'' True)"
  using paid_never_overdue
          [of "exampleLoan ''Ada'' 75000 None ''2026-10-03'' True" exampleParse exampleNow]
  by (simp add: exampleLoan_def exampleParse_def exampleNow_def)

section \<open>Date validation\<close>

text \<open>
  At half past midnight of 4 November 2026 in a zone one hour ahead of UTC, the date of
  that day is accepted: the string denotes the UTC midnight, which is still half an hour
  away.
\<close>

theorem isValidDate_local_today_counterexample:
  "exampleParse ''2026-11-04'' = Some (startOfLocalDay lagosZone lagosNow)
   \<and> isValidDate exampleParse lagosNow ''2026-11-04''"
  by (simp add: exampleParse_def startOfLocalDay_def lagosZone_def lagosNow_def
        isValidDate_def)

text \<open>
  Claim C9, as the code has it. A repayment date is valid exactly when the string parses
  to a date strictly after the current time: an unparseable string is rejected, every
  instant at or before the current time is rejected, and every later instant is accepted,
  also one of the same day. Today's date, which denotes the UTC midnight of the user's
  calendar day, is accepted exactly while the local time of day is less than the zone's
  offset from UTC; in UTC and in every zone behind it today's date is rejected.
\<close>

theorem isValidDate_after_now:
  "isValidDate parse now s = (\<exists>t. parse s = Some t \<and> now < t)
   \<and> (parse s = None \<longrightarrow> \<not> isValidDate parse now s)
   \<and> (\<forall>t. parse s = Some t \<and> t \<le> now \<longrightarrow> \<not> isValidDate parse now s)
   \<and> (\<forall>t. parse s = Some t \<and> now < t \<longrightarrow> isValidDate parse now s)
   \<and> (parse s = Some (startOfLocalDay zone now)
        \<longrightarrow> isValidDate parse now s
             = ((now + offsetAtUTC zone now) mod 86400000 < offsetAtUTC zone now))
   \<and> (parse s = Some (startOfLocalDay zone now) \<and> offsetAtUTC zone now \<le> 0
        \<longrightarrow> \<not> isValidDate parse now s)"
proof -
  have iff: "isValidDate parse now s = (\<exists>t. parse s = Some t \<and> now < t)"
    by (cases "parse s") (simp_all add: isValidDate_def)
  let ?l = "now + offsetAtUTC zone now"
  have d: "startOfLocalDay zone now = ?l - ?l mod 86400000"
    by (simp add: startOfLocalDay_def minus_mod_eq_div_mult)
  have today: "(now < startOfLocalDay zone now) = (?l mod 86400000 < offsetAtUTC zone now)"
    unfolding d by linarith
  have "0 \<le> ?l mod 86400000" by simp
  then have "offsetAtUTC zone now \<le> 0 \<Longrightarrow> \<not> now < startOfLocalDay zone now"
    unfolding today by linarith
  with iff today show ?thesis by auto
qed

text \<open>
  At noon UTC of 3 November 2026 the date of that day and an unparseable string are
  rejected and the date of the next day is accepted.
\<close>

theorem isValidDate_after_now_witness:
  "exampleParse ''2026-11-03'' = Some (startOfLocalDay utcZone exampleNow)
   \<and> offsetAtUTC utcZone exampleNow \<le> 0
   \<and> \<not> isValidDate exampleParse exampleNow ''2026-11-03''
   \<and> exampleParse ''tomorrow'' = None
   \<and> \<not> isValidDate exampleParse exampleNow ''tomorrow''
   \<and> exampleParse ''2026-11-04'' = Some 1793750400000 \<and> exampleNow < 1793750400000
   \<and> isValidDate exampleParse exampleNow ''2026-11-04''"
  using isValidDate_after_now [of exampleParse exampleNow "''2026-11-03''" utcZone]
        isValidDate_after_now [of exampleParse exampleNow "''tomorrow''" utcZone]
        isValidDate_after_now [of exampleParse exampleNow "''2026-11-04''" utcZone]
  by (simp add: exampleParse_def exampleNow_def startOfLocalDay_def utcZone_def)

section \<open>Degenerate collections\<close>

text \<open>
  Claim C4. The overview of the empty collection has every count and every amount equal
  to zero, and its payment rate is the number 0: the division by the number of loans is
  not evaluated.
\<close>

theorem overview_empty:
  "generateOverviewAnalytics parse now [] =
     \<lparr> totalLoans = Num 0, activeLoans = Num 0, paidLoans = Num 0, overdueLoans = Num 0,
       pendingLoans = Num 0, totalDebt = Num 0, totalInterest = Num 0, overdueAmount = Num 0,
       paidAmount = Num 0, pendingAmount = Num 0, averageLoanAmount = Num 0,
       smallestLoan = Num 0, largestLoan = Num 0, paymentRate = Num 0 \<rparr>"
  by (simp add: generateOverviewAnalytics_def len_def sumTotals_def sumInterest_def
        minus_number_def Let_def)

theorem overview_empty_witness:
  "paymentRate (generateOverviewAnalytics exampleParse exampleNow []) = Num 0
   \<and> totalLoans (generateOverviewAnalytics exampleParse exampleNow []) = Num 0
   \<and> totalDebt (generateOverviewAnalytics exampleParse exampleNow []) = Num 0"
  using overview_empty [of exampleParse exampleNow]
  by simp

text \<open>
  Claim C8. The risk assessment of the empty collection has a finite overall risk (25),
  five factors with finite scores, and the Portfolio Size factor scores 40. The largest
  exposure is the maximum of nothing, \<^verbatim>\<open>-Infinity\<close>, and does not reach the result.
\<close>

theorem risk_empty:
  "overallRisk (generateRiskAssessment parse now []) = Num 25
   \<and> length (factors (generateRiskAssessment parse now [])) = 5
   \<and> map name (factors (generateRiskAssessment parse now [])) =
       [''Overdue Rate'', ''Concentration Risk'', ''Interest Rate Risk'',
        ''Payment Velocity'', ''Portfolio Size'']
   \<and> map score (factors (generateRiskAssessment parse now [])) =
       [Num 0, Num 20, Num 10, Num 70, Num 40]
   \<and> Math_max (Map_values (foldl addExposure [] [])) = NegInfinity"
  by (simp add: generateRiskAssessment_def overdueFactor_def concentrationFactor_def
      interestFactor_def velocityFactor_def sizeFactor_def weightedScore_def weights_def
      at_index_def len_def sumTotals_def Math_min_def Math_max_def Map_values_def
      minus_number_def upt_rec round_def Let_def less_eq_number_def)

theorem risk_empty_witness:
  "overallRisk (generateRiskAssessment exampleParse exampleNow []) = Num 25
   \<and> map score (factors (generateRiskAssessment exampleParse exampleNow [])) =
       [Num 0, Num 20, Num 10, Num 70, Num 40]"
  using risk_empty [of exampleParse exampleNow]
  by simp

section \<open>The overview\<close>

lemma length_partition:
  "length loans = length (filter isPaid loans) + length (filter (isOverdue parse now) loans)
     + length (filter (\<lambda>l. \<not> isPaid l \<and> \<not> isOverdue parse now l) loans)"
  by (induction loans) (auto simp: isOverdue_def)

lemma status_iff:
  "(status parse now loan = PAID) = isPaid loan"
  "(status parse now loan = OVERDUE) = isOverdue parse now loan"
  "(status parse now loan = PENDING) = (\<not> isPaid loan \<and> \<not> isOverdue parse now loan)"
  by (auto simp: status_def isOverdue_def)

text \<open>
  Claim C3. At one evaluation time every loan has exactly one status: it is Paid exactly
  when it is paid, Overdue exactly when it is overdue, Pending exactly when it is neither,
  and no loan is both paid and overdue. The three counts of the overview are the numbers of
  loans of each status, and they add up to the total.
\<close>

theorem status_partition:
  "(status parse now loan = PAID) = isPaid loan
   \<and> (status parse now loan = OVERDUE) = isOverdue parse now loan
   \<and> (status parse now loan = PENDING) = (\<not> isPaid loan \<and> \<not> isOverdue parse now loan)
   \<and> \<not> (isPaid loan \<and> isOverdue parse now loan)
   \<and> totalLoans (generateOverviewAnalytics parse now loans) = len loans
   \<and> paidLoans (generateOverviewAnalytics parse now loans)
       = len (filter (\<lambda>l. status parse now l = PAID) loans)
   \<and> overdueLoans (generateOverviewAnalytics parse now loans)
       = len (filter (\<lambda>l. status parse now l = OVERDUE) loans)
   \<and> pendingLoans (generateOverviewAnalytics parse now loans)
       = len (filter (\<lambda>l. status parse now l = PENDING) loans)
   \<and> paidLoans (generateOverviewAnalytics parse now loans)
       + overdueLoans (generateOverviewAnalytics parse now loans)
       + pendingLoans (generateOverviewAnalytics parse now loans)
       = totalLoans (generateOverviewAnalytics parse now loans)"
proof -
  let ?p = "length (filter isPaid loans)"
  let ?o = "length (filter (isOverdue parse now) loans)"
  let ?q = "length (filter (\<lambda>l. \<not> isPaid l \<and> \<not> isOverdue parse now l) loans)"
  have n: "(of_nat (length loans) :: rat) = of_nat ?p + of_nat ?o + of_nat ?q"
    using length_partition [of loans parse now]
    by (metis of_nat_add)
  have pend: "pendingLoans (generateOverviewAnalytics parse now loans) = Num (of_nat ?q)"
    by (simp add: generateOverviewAnalytics_def Let_def len_def minus_number_def n)
  have paid: "paidLoans (generateOverviewAnalytics parse now loans) = Num (of_nat ?p)"
    by (simp add: generateOverviewAnalytics_def Let_def len_def)
  have over: "overdueLoans (generateOverviewAnalytics parse now loans) = Num (of_nat ?o)"
    by (simp add: generateOverviewAnalytics_def Let_def len_def)
  have tot: "totalLoans (generateOverviewAnalytics parse now loans) = Num (of_nat (length loans))"
    by (simp add: generateOverviewAnalytics_def Let_def len_def)
  have excl: "\<not> (isPaid loan \<and> isOverdue parse now loan)"
    by (simp add: isOverdue_def)
  show ?thesis
    unfolding status_iff pend paid over tot
    using excl n by (simp add: len_def)
qed

text \<open>A loan due the day before the evaluation, among one pending and one paid loan.\<close>

theorem status_partition_witness:
  "status exampleParse exampleNow (exampleLoan ''Ada'' 50000 (Some 10) ''2026-11-02'' False)
     = OVERDUE
   \<and> pendingLoans (generateOverviewAnalytics exampleParse exampleNow
        [exampleLoan ''Ada'' 50000 (Some 10) ''2026-11-02'' False,
         exampleLoan ''Bola'' 25000 (Some 5) ''2026-11-04'' False,
         exampleLoan ''Chidi'' 75000 None ''2026-10-03'' True]) = Num 1"
  using status_partition [of exampleParse exampleNow
          "exampleLoan ''Ada'' 50000 (Some 10) ''2026-11-02'' False"
          "[exampleLoan ''Ada'' 50000 (Some 10) ''2026-11-02'' False,
            exampleLoan ''Bola'' 25000 (Some 5) ''2026-11-04'' False,
            exampleLoan ''Chidi'' 75000 None ''2026-10-03'' True]"]
  by (simp add: exampleLoan_def exampleParse_def exampleNow_def isOverdue_def status_def
        len_def)



section \<open>Sums of totals over well-formed loans\<close>

lemma nonNegNum_ex: "nonNegNum x \<Longrightarrow> \<exists>a. x = Num a \<and> 0 \<le> a"
  by (cases x) auto

lemma isFinite_ex: "isFinite x \<Longrightarrow> \<exists>a. x = Num a"
  by (cases x) auto

lemma total_finite:
  assumes "finiteLoan loan"
  shows "\<exists>t. calculateTotalWithInterest loan = Num t"
proof -
  obtain a where a: "amount loan = Num a"
    using assms isFinite_ex by (auto simp: finiteLoan_def)
  show ?thesis
  proof (cases "interestRate loan")
    case None
    then show ?thesis using a by (simp add: calculateTotalWithInterest_def)
  next
    case (Some r)
    then obtain x where x: "r = Num x"
      using assms isFinite_ex by (auto simp: finiteLoan_def)
    then show ?thesis using a Some
      by (simp add: calculateTotalWithInterest_def)
  qed
qed

lemma foldl_totals:
  "\<forall>l\<in>set loans. finiteLoan l \<Longrightarrow>
   foldl (\<lambda>sum loan. sum + calculateTotalWithInterest loan) (Num s) loans
     = Num (s + ratTotal loans)"
proof (induction loans arbitrary: s)
  case Nil
  then show ?case by (simp add: ratTotal_def)
next
  case (Cons l loans)
  obtain t where t: "calculateTotalWithInterest l = Num t"
    using Cons.prems total_finite [of l] by auto
  have "foldl (\<lambda>sum loan. sum + calculateTotalWithInterest loan) (Num (s + t)) loans
          = Num (s + t + ratTotal loans)"
    by (rule Cons.IH) (use Cons.prems in simp)
  then show ?case
    using t by (simp add: ratTotal_def add.assoc)
qed

lemma sumTotals_finite:
  "\<forall>l\<in>set loans. finiteLoan l \<Longrightarrow> sumTotals loans = Num (ratTotal loans)"
  using foldl_totals [of loans 0] by (simp add: sumTotals_def)

section \<open>Payment trends\<close>

subsection \<open>Sums of non-negative totals in double precision\<close>

lemma number_le_trans: "(x::number) \<le> y \<Longrightarrow> y \<le> z \<Longrightarrow> x \<le> z"
  by (cases x; cases y; cases z) (auto simp: less_eq_number_def)

lemma nonNeg_le_refl: "nonNeg x \<Longrightarrow> x \<le> x"
  by (cases x) (auto simp: less_eq_number_def)

lemma round64_nonNeg: "nonNeg v \<Longrightarrow> nonNegDouble (round64 v)"
  by (cases v) (simp_all add: toDouble_nonNegDouble)

lemma round64_mono: "nonNeg x \<Longrightarrow> x \<le> y \<Longrightarrow> round64 x \<le> round64 y"
proof (cases x; cases y)
  fix a b assume "nonNeg x" "x \<le> y" "x = Num a" "y = Num b"
  then show "round64 x \<le> round64 y"
    using toDouble_mono [of a b] by (auto simp: less_eq_number_def)
next
  fix a assume h: "nonNeg x" "x = Num a" "y = PosInfinity"
  then have "nonNeg (toDouble a)"
    using toDouble_nonNegDouble [of a] nonNegDouble_nonNeg by simp
  then show "round64 x \<le> round64 y"
    using h by (cases "toDouble a") (auto simp: less_eq_number_def)
qed (auto simp: less_eq_number_def)

lemma round64_fix: "nonNegDouble v \<Longrightarrow> round64 v = v"
  by (cases v) simp_all

lemma nonNeg_plus: "nonNeg x \<Longrightarrow> nonNeg y \<Longrightarrow> nonNeg (x + y)"
  by (cases x; cases y) simp_all

lemma plus_mono_left: "nonNeg s \<Longrightarrow> nonNeg s' \<Longrightarrow> s \<le> s' \<Longrightarrow> nonNeg t \<Longrightarrow> s + t \<le> s' + t"
  by (cases s; cases s'; cases t) (auto simp: less_eq_number_def)

lemma plus_increasing: "nonNeg s \<Longrightarrow> nonNeg t \<Longrightarrow> s \<le> s + t"
  by (cases s; cases t) (auto simp: less_eq_number_def)

lemma add64_nonNegDouble: "nonNeg s \<Longrightarrow> nonNeg t \<Longrightarrow> nonNegDouble (add64 s t)"
  by (simp add: add64_def round64_nonNeg nonNeg_plus)

lemma add64_mono_left:
  "nonNeg s \<Longrightarrow> nonNeg s' \<Longrightarrow> s \<le> s' \<Longrightarrow> nonNeg t \<Longrightarrow> add64 s t \<le> add64 s' t"
  unfolding add64_def by (intro round64_mono nonNeg_plus plus_mono_left)

lemma add64_increasing:
  assumes "nonNegDouble s" and "nonNeg t"
  shows "s \<le> add64 s t"
proof -
  have s: "nonNeg s" by (rule nonNegDouble_nonNeg [OF assms(1)])
  have "round64 s \<le> round64 (s + t)"
    by (rule round64_mono [OF s plus_increasing [OF s assms(2)]])
  then show ?thesis
    using assms(1) by (simp add: add64_def round64_fix)
qed

lemma nonNeg_times_pos: "nonNeg x \<Longrightarrow> 0 < c \<Longrightarrow> nonNeg (x * Num c)"
  by (cases x) simp_all

lemma nonNeg_divide_pos: "nonNeg x \<Longrightarrow> 0 < c \<Longrightarrow> nonNeg (x / Num c)"
  by (cases x) simp_all

lemma mul64_nonNeg: "nonNeg x \<Longrightarrow> 0 < c \<Longrightarrow> nonNeg (mul64 x (Num c))"
  by (simp add: mul64_def round64_nonNeg nonNeg_times_pos nonNegDouble_nonNeg)

lemma div64_nonNeg: "nonNeg x \<Longrightarrow> 0 < c \<Longrightarrow> nonNeg (div64 x (Num c))"
  by (simp add: div64_def round64_nonNeg nonNeg_divide_pos nonNegDouble_nonNeg)

lemma sub64_nonNeg: "nonNeg a \<Longrightarrow> 0 \<le> b \<Longrightarrow> Num b \<le> a \<Longrightarrow> nonNeg (sub64 a (Num b))"
proof -
  assume h: "nonNeg a" "0 \<le> b" "Num b \<le> a"
  then have "nonNeg (a - Num b)"
    by (cases a) (auto simp: minus_number_def less_eq_number_def)
  then show ?thesis
    by (simp add: sub64_def round64_nonNeg nonNegDouble_nonNeg)
qed

lemma total64_nonNeg:
  assumes "nonNegativeLoan loan"
  shows "nonNeg (calculateTotalWithInterest64 loan)"
proof -
  obtain a where a: "amount loan = Num a" "0 \<le> a"
    using assms nonNegNum_ex by (auto simp: nonNegativeLoan_def)
  show ?thesis
  proof (cases "interestRate loan")
    case None
    then show ?thesis using a by (simp add: calculateTotalWithInterest64_def)
  next
    case (Some r)
    then obtain x where x: "r = Num x" "0 \<le> x"
      using assms nonNegNum_ex by (auto simp: nonNegativeLoan_def)
    show ?thesis
    proof (cases "x = 0")
      case True
      then show ?thesis using a Some x by (simp add: calculateTotalWithInterest64_def)
    next
      case False
      have "nonNeg (mul64 (Num a) (Num x))"
        using a(2) x(2) by (simp add: mul64_def toDouble_nonNegDouble nonNegDouble_nonNeg)
      then have "nonNeg (div64 (mul64 (Num a) (Num x)) (Num 100))"
        by (rule div64_nonNeg) simp
      moreover have "nonNeg (Num a)" using a(2) by simp
      ultimately have "nonNeg (add64 (Num a) (div64 (mul64 (Num a) (Num x)) (Num 100)))"
        by (simp add: add64_nonNegDouble nonNegDouble_nonNeg)
      then show ?thesis
        using a Some x False by (simp add: calculateTotalWithInterest64_def)
    qed
  qed
qed

lemma fold64_mono:
  assumes "\<forall>l\<in>set loans. nonNegativeLoan l" and "\<And>l. P l \<Longrightarrow> Q l"
    and "nonNegDouble s" and "nonNegDouble s'" and "s \<le> s'"
  shows "nonNegDouble (foldl (\<lambda>sum loan. add64 sum (calculateTotalWithInterest64 loan)) s
                          (filter P loans))
       \<and> nonNegDouble (foldl (\<lambda>sum loan. add64 sum (calculateTotalWithInterest64 loan)) s'
                          (filter Q loans))
       \<and> foldl (\<lambda>sum loan. add64 sum (calculateTotalWithInterest64 loan)) s (filter P loans)
           \<le> foldl (\<lambda>sum loan. add64 sum (calculateTotalWithInterest64 loan)) s'
                (filter Q loans)"
  using assms(1,3,4,5)
proof (induction loans arbitrary: s s')
  case Nil
  then show ?case by simp
next
  case (Cons l loans)
  let ?t = "calculateTotalWithInterest64 l"
  have t: "nonNeg ?t" using Cons.prems(1) total64_nonNeg by simp
  have rest: "\<forall>l\<in>set loans. nonNegativeLoan l" using Cons.prems(1) by simp
  have s: "nonNeg s" "nonNeg s'"
    using Cons.prems(2,3) nonNegDouble_nonNeg by simp_all
  show ?case
  proof (cases "P l")
    case True
    then have q: "Q l" by (rule assms(2))
    have "add64 s ?t \<le> add64 s' ?t"
      by (rule add64_mono_left [OF s Cons.prems(4) t])
    moreover have "nonNegDouble (add64 s ?t)" "nonNegDouble (add64 s' ?t)"
      using s t by (simp_all add: add64_nonNegDouble)
    ultimately show ?thesis
      using Cons.IH [OF rest, of "add64 s ?t" "add64 s' ?t"] True q by simp
  next
    case False
    show ?thesis
    proof (cases "Q l")
      case True
      have "s' \<le> add64 s' ?t" by (rule add64_increasing [OF Cons.prems(3) t])
      then have "s \<le> add64 s' ?t" by (rule number_le_trans [OF Cons.prems(4)])
      moreover have "nonNegDouble (add64 s' ?t)"
        using s t by (simp add: add64_nonNegDouble)
      ultimately show ?thesis
        using Cons.IH [OF rest Cons.prems(2), of "add64 s' ?t"] True False by simp
    next
      case q: False
      show ?thesis
        using Cons.IH [OF rest Cons.prems(2,3,4)] False q by simp
    qed
  qed
qed

lemma sumTotals64_filter_mono:
  assumes "\<forall>l\<in>set loans. nonNegativeLoan l" and "\<And>l. P l \<Longrightarrow> Q l"
  shows "nonNegDouble (sumTotals64 (filter P loans))
       \<and> nonNegDouble (sumTotals64 (filter Q loans))
       \<and> sumTotals64 (filter P loans) \<le> sumTotals64 (filter Q loans)"
  unfolding sumTotals64_def
  by (rule fold64_mono [OF assms]) (simp_all add: less_eq_number_def)

lemma paidSince_mono64:
  assumes "\<forall>l\<in>set loans. nonNegativeLoan l" and "c \<le> c'"
  shows "nonNegDouble (sumTotals64 (paidSince parse c' loans))
       \<and> nonNegDouble (sumTotals64 (paidSince parse c loans))
       \<and> sumTotals64 (paidSince parse c' loans) \<le> sumTotals64 (paidSince parse c loans)"
  unfolding paidSince_def
proof (rule sumTotals64_filter_mono [OF assms(1)])
  fix l
  assume "date_ge (parse (repaymentDate l)) (Some c') \<and> isPaid l"
  then show "date_ge (parse (repaymentDate l)) (Some c) \<and> isPaid l"
    using assms(2) by (cases "parse (repaymentDate l)") auto
qed


lemma trendsLoop_eq:
  "trendsLoop zone parse now loans i acc
     = acc @ map (trendAt zone parse now loans) [i..<length periods]"
proof (induction zone parse now loans i acc rule: trendsLoop.induct)
  case (1 zone parse now loans i trends)
  show ?case
  proof (cases "i < length periods")
    case True
    then show ?thesis
      using "1.IH" [OF True] by (subst trendsLoop.simps) (simp add: upt_rec [of i])
  next
    case False
    then show ?thesis by (subst trendsLoop.simps) simp
  qed
qed

lemma length_periods: "length periods = 5"
  by (simp add: periods_def)

lemma generatePaymentTrends_map:
  "generatePaymentTrends zone parse now loans = map (trendAt zone parse now loans) [0..<5]"
  unfolding generatePaymentTrends_def trendsLoop_eq length_periods by simp

lemma dayRanges_increasing:
  "0 < i \<Longrightarrow> i < 5 \<Longrightarrow> dayRanges ! (i - 1) + 2 \<le> dayRanges ! i"
proof -
  assume "0 < i" "i < 5"
  then have "i = 1 \<or> i = 2 \<or> i = 3 \<or> i = 4" by arith
  then show ?thesis by (auto simp: dayRanges_def)
qed

lemma daysAgo_antimono:
  assumes "\<forall>t. \<bar>offsetAtLocal zone t\<bar> \<le> 86400000" and "d + 2 \<le> d'"
  shows "daysAgo zone now d' \<le> daysAgo zone now d"
proof -
  let ?l = "now + offsetAtUTC zone now"
  have 1: "\<bar>offsetAtLocal zone (?l - d * 86400000)\<bar> \<le> 86400000"
    and 2: "\<bar>offsetAtLocal zone (?l - d' * 86400000)\<bar> \<le> 86400000"
    using assms(1) by blast+
  have "d * 86400000 + 2 * 86400000 \<le> d' * 86400000"
    using assms(2) by simp
  then show ?thesis
    using 1 2 by (simp add: daysAgo_def Let_def)
qed

lemma cutoffs_ordered:
  assumes "\<forall>t. \<bar>offsetAtLocal zone t\<bar> \<le> 86400000" and "0 < i" and "i < 5"
  shows "daysAgo zone now (dayRanges ! i) \<le> daysAgo zone now (dayRanges ! (i - 1))"
  by (rule daysAgo_antimono [OF assms(1) dayRanges_increasing [OF assms(2,3)]])

lemma trendAt_amount:
  "amount_t (trendAt zone parse now loans i)
     = sumTotals64 (paidSince parse (daysAgo zone now (dayRanges ! i)) loans)"
  by (simp add: trendAt_def Let_def split: prod.splits)



lemma change_cases:
  assumes "nonNeg a" and "nonNeg b" and "b \<le> a" and "Num 0 < b"
  shows "(b = PosInfinity \<longrightarrow> mul64 (div64 (sub64 a b) b) (Num 100) = NaN)
       \<and> (b \<noteq> PosInfinity \<longrightarrow> nonNeg (mul64 (div64 (sub64 a b) b) (Num 100)))"
proof (cases b)
  case (Num y)
  then have y: "0 < y" using assms(4) by simp
  have "Num y \<le> a" using assms(3) Num by simp
  then have "nonNeg (sub64 a (Num y))"
    using assms(1) y by (intro sub64_nonNeg) simp_all
  then have "nonNeg (div64 (sub64 a (Num y)) (Num y))"
    using y by (rule div64_nonNeg)
  then have "nonNeg (mul64 (div64 (sub64 a (Num y)) (Num y)) (Num 100))"
    by (rule mul64_nonNeg) simp
  then show ?thesis using Num by simp
next
  case PosInfinity
  then have "a = PosInfinity"
    using assms(1,3) by (cases a) (simp_all add: less_eq_number_def)
  then show ?thesis
    using PosInfinity by (simp add: sub64_def div64_def mul64_def minus_number_def)
next
  case NegInfinity
  then show ?thesis using assms(2) by simp
next
  case NaN
  then show ?thesis using assms(2) by simp
qed

lemma nonNeg_not_less: "nonNeg c \<Longrightarrow> \<not> c < Num (- 5)"
  by (cases c) simp_all

lemma nonNeg_abs: "nonNeg c \<Longrightarrow> Math_abs c = c"
  by (cases c) simp_all

lemma nonNeg_ge_zero: "nonNeg c \<Longrightarrow> Num 0 \<le> c"
  by (cases c) (auto simp: less_eq_number_def)

lemma nonNeg_not_NaN: "nonNeg c \<Longrightarrow> c \<noteq> NaN"
  by (cases c) simp_all

lemma trendAt_props:
  assumes nn: "\<forall>l\<in>set loans. nonNegativeLoan l"
    and zone: "\<forall>t. \<bar>offsetAtLocal zone t\<bar> \<le> 86400000"
    and i: "0 < i" "i < 5"
  shows "trend (trendAt zone parse now loans i) \<noteq> down
       \<and> (changePercentage (trendAt zone parse now loans i) = NaN
            \<or> Num 0 \<le> changePercentage (trendAt zone parse now loans i))
       \<and> (changePercentage (trendAt zone parse now loans i) = NaN)
            = (amount_t (trendAt zone parse now loans (i - 1)) = PosInfinity)
       \<and> amount_t (trendAt zone parse now loans (i - 1))
            \<le> amount_t (trendAt zone parse now loans i)"
proof -
  let ?a = "sumTotals64 (paidSince parse (daysAgo zone now (dayRanges ! i)) loans)"
  let ?b = "sumTotals64 (paidSince parse (daysAgo zone now (dayRanges ! (i - 1))) loans)"
  let ?c = "mul64 (div64 (sub64 ?a ?b) ?b) (Num 100)"
  have ab: "nonNegDouble ?b" "nonNegDouble ?a" "?b \<le> ?a"
    using paidSince_mono64 [OF nn cutoffs_ordered [OF zone i]] by simp_all
  then have a: "nonNeg ?a" and b: "nonNeg ?b"
    by (simp_all add: nonNegDouble_nonNeg)
  have am: "amount_t (trendAt zone parse now loans (i - 1)) = ?b"
           "amount_t (trendAt zone parse now loans i) = ?a"
    by (simp_all add: trendAt_amount)
  show ?thesis
  proof (cases "Num 0 < ?b")
    case False
    then have "?b \<noteq> PosInfinity" by auto
    then show ?thesis
      unfolding am using False i(1) ab(3)
      by (simp add: trendAt_def Let_def less_eq_number_def)
  next
    case pos: True
    show ?thesis
    proof (cases "?b = PosInfinity")
      case True
      then have "?c = NaN" using change_cases [OF a b ab(3) pos] by simp
      then show ?thesis
        unfolding am using pos i(1) ab(3) True by (simp add: trendAt_def Let_def)
    next
      case False
      then have "nonNeg ?c" using change_cases [OF a b ab(3) pos] by simp
      then show ?thesis
        unfolding am using pos i(1) ab(3) False nonNeg_not_less [of ?c] nonNeg_abs [of ?c]
          nonNeg_ge_zero [of ?c] nonNeg_not_NaN [of ?c]
        by (simp add: trendAt_def Let_def)
    qed
  qed
qed



lemma trendAt_first:
  "trend (trendAt zone parse now loans 0) \<noteq> down
   \<and> Num 0 \<le> changePercentage (trendAt zone parse now loans 0)"
  by (simp add: trendAt_def Let_def less_eq_number_def)

lemma trendAt_not_down:
  assumes "\<forall>l\<in>set loans. nonNegativeLoan l"
    and "\<forall>t. \<bar>offsetAtLocal zone t\<bar> \<le> 86400000" and "i < 5"
  shows "trend (trendAt zone parse now loans i) \<noteq> down
       \<and> (changePercentage (trendAt zone parse now loans i) = NaN
            \<or> Num 0 \<le> changePercentage (trendAt zone parse now loans i))"
proof (cases "0 < i")
  case True
  show ?thesis
    using trendAt_props [OF assms(1,2) True assms(3), of parse now] by blast
next
  case False
  then have "i = 0" by simp
  then show ?thesis using trendAt_first [of zone parse now loans] by blast
qed

lemma trendAt_amount_mono:
  assumes "\<forall>l\<in>set loans. nonNegativeLoan l"
    and "\<forall>t. \<bar>offsetAtLocal zone t\<bar> \<le> 86400000" and "i < 4"
  shows "amount_t (trendAt zone parse now loans i)
           \<le> amount_t (trendAt zone parse now loans (Suc i))"
proof -
  have "0 < Suc i" "Suc i < 5" using assms(3) by simp_all
  from trendAt_props [OF assms(1,2) this, of parse now]
  have "amount_t (trendAt zone parse now loans (Suc i - 1))
           \<le> amount_t (trendAt zone parse now loans (Suc i))" by blast
  then show ?thesis by (simp only: diff_Suc_1)
qed

lemma trendAt_nan_iff:
  assumes "\<forall>l\<in>set loans. nonNegativeLoan l"
    and "\<forall>t. \<bar>offsetAtLocal zone t\<bar> \<le> 86400000" and "i < 4"
  shows "(changePercentage (trendAt zone parse now loans (Suc i)) = NaN)
           = (amount_t (trendAt zone parse now loans i) = PosInfinity)"
proof -
  have "0 < Suc i" "Suc i < 5" using assms(3) by simp_all
  from trendAt_props [OF assms(1,2) this, of parse now]
  have "(changePercentage (trendAt zone parse now loans (Suc i)) = NaN)
           = (amount_t (trendAt zone parse now loans (Suc i - 1)) = PosInfinity)" by blast
  then show ?thesis by (simp only: diff_Suc_1)
qed

lemma trends_nth:
  "i < 5 \<Longrightarrow> generatePaymentTrends zone parse now loans ! i = trendAt zone parse now loans i"
  unfolding generatePaymentTrends_map by (simp only: nth_map length_upt nth_upt) simp

text \<open>
  Claim C10, as the code has it. For loans with finite, non-negative amounts and rates,
  in a zone whose offsets stay within a day, the payment trends have five entries, one
  per period. The cutoffs of the periods lie ever earlier and the windows have no upper
  end, so the paid amount of a period is at least that of the period before it, and no
  entry is classified \<open>down\<close>. A change percentage is never negative: it is a number
  that is at least 0, or it is \<^verbatim>\<open>NaN\<close>, which happens exactly when the paid amount of the
  period before has overflowed to \<^verbatim>\<open>Infinity\<close>.
\<close>

theorem paymentTrends_never_down:
  assumes "\<forall>l\<in>set loans. nonNegativeLoan l"
    and "\<forall>t. \<bar>offsetAtLocal zone t\<bar> \<le> 86400000"
  shows "length (generatePaymentTrends zone parse now loans) = 5
     \<and> map period (generatePaymentTrends zone parse now loans) = periods
     \<and> (\<forall>t\<in>set (generatePaymentTrends zone parse now loans).
           trend t \<noteq> down \<and> (changePercentage t = NaN \<or> Num 0 \<le> changePercentage t))
     \<and> (\<forall>i<4. amount_t (generatePaymentTrends zone parse now loans ! i)
                 \<le> amount_t (generatePaymentTrends zone parse now loans ! Suc i))
     \<and> (\<forall>i<4. (changePercentage (generatePaymentTrends zone parse now loans ! Suc i) = NaN)
                 = (amount_t (generatePaymentTrends zone parse now loans ! i) = PosInfinity))"
proof (intro conjI)
  show "length (generatePaymentTrends zone parse now loans) = 5"
    by (simp add: generatePaymentTrends_map)
  show "map period (generatePaymentTrends zone parse now loans) = periods"
    by (simp add: generatePaymentTrends_map upt_rec trendAt_def Let_def periods_def
          split: prod.splits)
  show "\<forall>t\<in>set (generatePaymentTrends zone parse now loans).
           trend t \<noteq> down \<and> (changePercentage t = NaN \<or> Num 0 \<le> changePercentage t)"
  proof
    fix t assume "t \<in> set (generatePaymentTrends zone parse now loans)"
    then obtain i where i: "i < 5" "t = trendAt zone parse now loans i"
      by (auto simp: generatePaymentTrends_map)
    show "trend t \<noteq> down \<and> (changePercentage t = NaN \<or> Num 0 \<le> changePercentage t)"
      unfolding i(2) by (rule trendAt_not_down [OF assms i(1)])
  qed
  show "\<forall>i<4. amount_t (generatePaymentTrends zone parse now loans ! i)
                 \<le> amount_t (generatePaymentTrends zone parse now loans ! Suc i)"
  proof (intro allI impI)
    fix i :: nat assume i: "i < 4"
    then have "i < 5" "Suc i < 5" by simp_all
    then show "amount_t (generatePaymentTrends zone parse now loans ! i)
                 \<le> amount_t (generatePaymentTrends zone parse now loans ! Suc i)"
      using trendAt_amount_mono [OF assms i] by (simp only: trends_nth)
  qed
  show "\<forall>i<4. (changePercentage (generatePaymentTrends zone parse now loans ! Suc i) = NaN)
                 = (amount_t (generatePaymentTrends zone parse now loans ! i) = PosInfinity)"
  proof (intro allI impI)
    fix i :: nat assume i: "i < 4"
    then have "i < 5" "Suc i < 5" by simp_all
    then show "(changePercentage (generatePaymentTrends zone parse now loans ! Suc i) = NaN)
                 = (amount_t (generatePaymentTrends zone parse now loans ! i) = PosInfinity)"
      using trendAt_nan_iff [OF assms i] by (simp only: trends_nth)
  qed
qed


text \<open>
  At noon of 3 November 2026 the first paid loan lies in every window and the second one
  in the windows from 90 days on, where the amount rises from 11000 to 33000.
\<close>

theorem paymentTrends_never_down_witness:
  "list_all nonNegativeLoan paidExamples
   \<and> (\<forall>t. \<bar>offsetAtLocal lagosZone t\<bar> \<le> 86400000)
   \<and> map trend (generatePaymentTrends lagosZone exampleParse exampleNow paidExamples)
       = [stable, stable, up, stable, stable]
   \<and> map amount_t (generatePaymentTrends lagosZone exampleParse exampleNow paidExamples)
       = [Num 11000, Num 11000, Num 33000, Num 33000, Num 33000]
   \<and> map changePercentage (generatePaymentTrends lagosZone exampleParse exampleNow paidExamples)
       = [Num 0, Num 0, Num 200, Num 0, Num 0]"
proof -
  have n: "\<forall>l\<in>set paidExamples. nonNegativeLoan l"
    by (simp add: paidExamples_def exampleLoan_def nonNegativeLoan_def)
  have z: "\<forall>t. \<bar>offsetAtLocal lagosZone t\<bar> \<le> 86400000"
    by (simp add: lagosZone_def)
  have ev: "map (\<lambda>t. (trend t, amount_t t, changePercentage t))
              (generatePaymentTrends lagosZone exampleParse exampleNow paidExamples)
            = [(stable, Num 11000, Num 0), (stable, Num 11000, Num 0), (up, Num 33000, Num 200),
               (stable, Num 33000, Num 0), (stable, Num 33000, Num 0)]"
    by (simp add: generatePaymentTrends_map upt_rec trendAt_def Let_def paidSince_def
        dayRanges_def daysAgo_def periods_def sumTotals64_def calculateTotalWithInterest64_def
        paidExamples_def exampleLoan_def exampleParse_def exampleNow_def lagosZone_def
        add64_def sub64_def mul64_def div64_def minus_number_def len_def)
  have "map trend (generatePaymentTrends lagosZone exampleParse exampleNow paidExamples)
          = map fst (map (\<lambda>t. (trend t, amount_t t, changePercentage t))
              (generatePaymentTrends lagosZone exampleParse exampleNow paidExamples))"
       "map amount_t (generatePaymentTrends lagosZone exampleParse exampleNow paidExamples)
          = map (fst \<circ> snd) (map (\<lambda>t. (trend t, amount_t t, changePercentage t))
              (generatePaymentTrends lagosZone exampleParse exampleNow paidExamples))"
       "map changePercentage (generatePaymentTrends lagosZone exampleParse exampleNow paidExamples)
          = map (snd \<circ> snd) (map (\<lambda>t. (trend t, amount_t t, changePercentage t))
              (generatePaymentTrends lagosZone exampleParse exampleNow paidExamples))"
    by (simp_all add: comp_def)
  then have "map trend (generatePaymentTrends lagosZone exampleParse exampleNow paidExamples)
       = [stable, stable, up, stable, stable]"
       "map amount_t (generatePaymentTrends lagosZone exampleParse exampleNow paidExamples)
       = [Num 11000, Num 11000, Num 33000, Num 33000, Num 33000]"
       "map changePercentage (generatePaymentTrends lagosZone exampleParse exampleNow paidExamples)
       = [Num 0, Num 0, Num 200, Num 0, Num 0]"
    unfolding ev by simp_all
  then show ?thesis
    using n z paymentTrends_never_down [OF n z, of exampleParse exampleNow]
    by (simp add: list_all_iff)
qed

text \<open>
  A paid loan of \<open>2^1023\<close> at 100 percent totals to \<^verbatim>\<open>Infinity\<close>; from the second period
  on the change is \<^verbatim>\<open>(Infinity - Infinity) / Infinity * 100\<close>, which is \<^verbatim>\<open>NaN\<close> and not
  at least 0.
\<close>

lemma overflow_total:
  "calculateTotalWithInterest64 (exampleLoan ''Ada'' (2 ^ 1023) (Some 100) ''2026-11-02'' True)
     = PosInfinity"
proof -
  have "(2::rat) ^ 1024 \<le> 2 ^ 1023 * 100" by simp
  then have "toDouble (2 ^ 1023 * 100) = PosInfinity" by (rule toDouble_overflow)
  then show ?thesis
    by (simp add: calculateTotalWithInterest64_def exampleLoan_def mul64_def div64_def
          add64_def)
qed

theorem paymentTrends_overflow_counterexample:
  "list_all nonNegativeLoan overflowExamples
   \<and> amount_t (generatePaymentTrends utcZone exampleParse exampleNow overflowExamples ! 0)
       = PosInfinity
   \<and> changePercentage (generatePaymentTrends utcZone exampleParse exampleNow overflowExamples ! 1)
       = NaN
   \<and> \<not> Num 0
        \<le> changePercentage (generatePaymentTrends utcZone exampleParse exampleNow overflowExamples ! 1)"
proof -
  have s: "sumTotals64 overflowExamples = PosInfinity"
    using overflow_total by (simp add: sumTotals64_def overflowExamples_def add64_def)
  have p: "paidSince exampleParse (daysAgo utcZone exampleNow (dayRanges ! 0)) overflowExamples
             = overflowExamples"
          "paidSince exampleParse (daysAgo utcZone exampleNow (dayRanges ! Suc 0)) overflowExamples
             = overflowExamples"
    by (simp_all add: paidSince_def daysAgo_def utcZone_def exampleNow_def dayRanges_def
          overflowExamples_def exampleLoan_def exampleParse_def Let_def)
  have t0: "amount_t (trendAt utcZone exampleParse exampleNow overflowExamples 0) = PosInfinity"
    by (simp add: trendAt_amount p s)
  have t1: "changePercentage (trendAt utcZone exampleParse exampleNow overflowExamples 1) = NaN"
    by (simp add: trendAt_def Let_def p s sub64_def div64_def mul64_def minus_number_def)
  have n: "list_all nonNegativeLoan overflowExamples"
    by (simp add: overflowExamples_def exampleLoan_def nonNegativeLoan_def)
  show ?thesis
    using n t0 t1 by (simp add: trends_nth less_eq_number_def)
qed

section \<open>Lender analysis\<close>

subsection \<open>The insertion-ordered map\<close>

lemma Map_get_set: "Map_get (Map_set m k v) k' = (if k' = k then Some v else Map_get m k')"
  by (induction m) auto

lemma Map_get_None: "(Map_get m k = None) = (k \<notin> fst ` set m)"
  by (induction m) (auto simp: image_iff split: if_splits)

lemma Map_set_keys:
  "map fst (Map_set m k v) = (if k \<in> fst ` set m then map fst m else map fst m @ [k])"
  by (induction m) (fastforce simp: image_iff)+

lemma Map_get_distinct: "distinct (map fst m) \<Longrightarrow> (k, d) \<in> set m \<Longrightarrow> Map_get m k = Some d"
  by (induction m) (auto simp: rev_image_eqI)

subsection \<open>The grouping loop\<close>

lemma sumTotals_snoc: "sumTotals (ls @ [l]) = sumTotals ls + calculateTotalWithInterest l"
  by (simp add: sumTotals_def)

lemma len_snoc: "len (ls @ [l]) = len ls + Num 1"
  by (simp add: len_def)

lemma groupData_absent:
  "k \<notin> lenderName ` set ls \<Longrightarrow>
   groupData parse now k ls = \<lparr> loans_d = [], totalAmount_d = Num 0, paidLoans_d = Num 0,
                          overdueLoans_d = Num 0 \<rparr>"
proof -
  assume "k \<notin> lenderName ` set ls"
  then have "lenderLoans k ls = []"
    by (auto simp: lenderLoans_def filter_empty_conv)
  then show ?thesis by (simp add: groupData_def sumTotals_def len_def)
qed

lemma groupData_other:
  "lenderName l \<noteq> k \<Longrightarrow> groupData parse now k (ls @ [l]) = groupData parse now k ls"
  by (simp add: groupData_def lenderLoans_def)

lemma grouped_keys:
  assumes "grouped parse now m ls"
  shows "fst ` set m = lenderName ` set ls"
proof (rule set_eqI)
  fix k
  have "(k \<in> fst ` set m) = (Map_get m k \<noteq> None)"
    by (simp add: Map_get_None)
  also have "\<dots> = (k \<in> lenderName ` set ls)"
    using assms by (simp add: grouped_def)
  finally show "(k \<in> fst ` set m) = (k \<in> lenderName ` set ls)" .
qed

lemma groupLoan_same:
  assumes "grouped parse now m ls"
  shows "groupLoan parse now m l =
           Map_set m (lenderName l) (groupData parse now (lenderName l) (ls @ [l]))"
proof -
  let ?k = "lenderName l"
  have d: "(case Map_get m ?k of
               None \<Rightarrow> \<lparr> loans_d = [], totalAmount_d = Num 0, paidLoans_d = Num 0,
                          overdueLoans_d = Num 0 \<rparr>
             | Some d \<Rightarrow> d) = groupData parse now ?k ls"
    using assms groupData_absent [of ?k ls parse now] by (simp add: grouped_def)
  have nov: "isPaid l \<Longrightarrow> \<not> isOverdue parse now l"
    by (simp add: isOverdue_def)
  show ?thesis
    unfolding groupLoan_def d Let_def
    using nov
    by (simp add: groupData_def lenderLoans_def sumTotals_snoc len_snoc)
qed

lemma grouped_step:
  assumes "grouped parse now m ls"
  shows "grouped parse now (groupLoan parse now m l) (ls @ [l])"
proof -
  have k: "fst ` set m = lenderName ` set ls"
    by (rule grouped_keys [OF assms])
  show ?thesis
    unfolding groupLoan_same [OF assms] grouped_def
  proof (intro conjI allI)
    show "distinct (map fst (Map_set m (lenderName l) (groupData parse now (lenderName l) (ls @ [l]))))"
      using assms by (simp add: Map_set_keys grouped_def k)
  next
    fix k
    show "Map_get (Map_set m (lenderName l) (groupData parse now (lenderName l) (ls @ [l]))) k =
          (if k \<in> lenderName ` set (ls @ [l]) then Some (groupData parse now k (ls @ [l])) else None)"
      using assms by (auto simp: Map_get_set grouped_def groupData_other)
  qed
qed

lemma grouped_foldl: "grouped parse now (foldl (groupLoan parse now) [] loans) loans"
proof (induction loans rule: rev_induct)
  case Nil
  then show ?case by (simp add: grouped_def)
next
  case (snoc l ls)
  then show ?case by (simp add: grouped_step)
qed

lemma grouped_entry:
  assumes "grouped parse now m ls" and "(k, d) \<in> set m"
  shows "k \<in> lenderName ` set ls \<and> d = groupData parse now k ls"
proof -
  have "distinct (map fst m)"
    using assms(1) by (simp add: grouped_def)
  then have "Map_get m k = Some d"
    using assms(2) by (rule Map_get_distinct)
  moreover have "Map_get m k =
      (if k \<in> lenderName ` set ls then Some (groupData parse now k ls) else None)"
    using assms(1) by (simp add: grouped_def)
  ultimately show ?thesis
    by (auto split: if_splits)
qed


subsection \<open>Sorting by total amount\<close>

lemma set_insertBy: "set (insertBy cmp x ys) = insert x (set ys)"
  by (induction ys) auto

lemma set_sortBy: "set (sortBy cmp xs) = set xs"
  unfolding sortBy_def by (induction xs) (simp_all add: set_insertBy)

lemma distinct_map_insertBy:
  "distinct (map f (insertBy cmp x ys)) = (f x \<notin> f ` set ys \<and> distinct (map f ys))"
  by (induction ys) (auto simp: set_insertBy)

lemma distinct_map_sortBy: "distinct (map f (sortBy cmp xs)) = distinct (map f xs)"
  unfolding sortBy_def
proof (induction xs)
  case Nil
  then show ?case by simp
next
  case (Cons x xs)
  have "set (foldr (insertBy cmp) xs []) = set xs"
    using set_sortBy [of cmp xs] by (simp add: sortBy_def)
  then show ?case using Cons by (simp add: distinct_map_insertBy)
qed

lemma insertBy_descending:
  assumes "isFinite (totalAmount_l x)" and "\<forall>y\<in>set ys. isFinite (totalAmount_l y)"
    and "sorted_wrt (\<lambda>a b. totalAmount_l b \<le> totalAmount_l a) ys"
  shows "sorted_wrt (\<lambda>a b. totalAmount_l b \<le> totalAmount_l a)
           (insertBy (\<lambda>a b. totalAmount_l b - totalAmount_l a) x ys)"
  using assms(2,3)
proof (induction ys)
  case Nil
  then show ?case by simp
next
  case (Cons y ys)
  obtain a where a: "totalAmount_l x = Num a"
    using assms(1) isFinite_ex by blast
  obtain b where b: "totalAmount_l y = Num b"
    using Cons.prems(1) isFinite_ex by auto
  show ?case
  proof (cases "a < b")
    case True
    have "sorted_wrt (\<lambda>a b. totalAmount_l b \<le> totalAmount_l a)
            (insertBy (\<lambda>a b. totalAmount_l b - totalAmount_l a) x ys)"
      using Cons by simp
    then show ?thesis
      using True a b Cons.prems
      by (auto simp: minus_number_def less_eq_number_def set_insertBy)
  next
    case False
    have "\<forall>z\<in>set ys. totalAmount_l z \<le> totalAmount_l x"
    proof
      fix z assume z: "z \<in> set ys"
      then obtain c where c: "totalAmount_l z = Num c"
        using Cons.prems(1) isFinite_ex by auto
      have "totalAmount_l z \<le> totalAmount_l y"
        using Cons.prems(2) z by simp
      then show "totalAmount_l z \<le> totalAmount_l x"
        using False a b c by (auto simp: less_eq_number_def)
    qed
    then show ?thesis
      using False a b Cons.prems(2)
      by (auto simp: minus_number_def less_eq_number_def)
  qed
qed

lemma sortBy_descending:
  assumes "\<forall>y\<in>set xs. isFinite (totalAmount_l y)"
  shows "sorted_wrt (\<lambda>a b. totalAmount_l b \<le> totalAmount_l a)
           (sortBy (\<lambda>a b. totalAmount_l b - totalAmount_l a) xs)"
  using assms unfolding sortBy_def
proof (induction xs)
  case Nil
  then show ?case by simp
next
  case (Cons x xs)
  have s: "set (foldr (insertBy (\<lambda>a b. totalAmount_l b - totalAmount_l a)) xs []) = set xs"
    using set_sortBy [of _ xs] by (simp add: sortBy_def)
  show ?case
    using Cons s by (simp add: insertBy_descending)
qed

subsection \<open>The analysis\<close>

lemma analysis_entry:
  assumes "e \<in> set (generateLenderAnalysis parse now loans)"
  shows "name_l e \<in> lenderName ` set loans
         \<and> e = analyseLender (name_l e, groupData parse now (name_l e) loans)"
proof -
  let ?m = "foldl (groupLoan parse now) [] loans"
  have "e \<in> set (map analyseLender ?m)"
    using assms by (simp add: generateLenderAnalysis_def Let_def set_sortBy)
  then obtain k d where kd: "(k, d) \<in> set ?m" "e = analyseLender (k, d)"
    by auto
  have "k \<in> lenderName ` set loans \<and> d = groupData parse now k loans"
    by (rule grouped_entry [OF grouped_foldl kd(1)])
  moreover have "name_l e = k"
    using kd(2) by (simp add: analyseLender_def Let_def)
  ultimately show ?thesis using kd(2) by simp
qed

lemma len_pos: "xs \<noteq> [] \<Longrightarrow> Num 0 < len xs"
  by (cases xs) (simp_all add: len_def)

lemma lenderLoans_nonempty: "k \<in> lenderName ` set loans \<Longrightarrow> lenderLoans k loans \<noteq> []"
  by (auto simp: lenderLoans_def filter_empty_conv)

text \<open>
  Claim C6. For loans with finite amounts and rates, every entry of the lender analysis
  carries the counts and the total of the loans of its lender. Its risk label is High
  exactly when its overdue rate exceeds 50 or its payment rate is below 30, Medium exactly
  when it is not High and its overdue rate exceeds 20 or its payment rate is below 60, and
  Low otherwise. The entries are in descending order of total amount, one per lender.
\<close>

theorem lenderAnalysis_risk_and_order:
  assumes "\<forall>l\<in>set loans. finiteLoan l"
  shows "(\<forall>e\<in>set (generateLenderAnalysis parse now loans).
            totalLoans_l e = len (lenderLoans (name_l e) loans)
          \<and> Num 0 < totalLoans_l e
          \<and> paidLoans_l e = len (filter isPaid (lenderLoans (name_l e) loans))
          \<and> overdueLoans_l e = len (filter (isOverdue parse now) (lenderLoans (name_l e) loans))
          \<and> totalAmount_l e = sumTotals (lenderLoans (name_l e) loans)
          \<and> paymentRate_l e = (paidLoans_l e / totalLoans_l e) * Num 100
          \<and> (riskLevel e = High) = (Num 50 < overdueRate_l e \<or> paymentRate_l e < Num 30)
          \<and> (riskLevel e = Medium) =
              (\<not> (Num 50 < overdueRate_l e \<or> paymentRate_l e < Num 30)
               \<and> (Num 20 < overdueRate_l e \<or> paymentRate_l e < Num 60))
          \<and> (riskLevel e = Low) =
              (\<not> (Num 50 < overdueRate_l e \<or> paymentRate_l e < Num 30)
               \<and> \<not> (Num 20 < overdueRate_l e \<or> paymentRate_l e < Num 60)))
       \<and> sorted_wrt (\<lambda>a b. totalAmount_l b \<le> totalAmount_l a)
            (generateLenderAnalysis parse now loans)
       \<and> name_l ` set (generateLenderAnalysis parse now loans) = lenderName ` set loans
       \<and> distinct (map name_l (generateLenderAnalysis parse now loans))"
proof (intro conjI ballI)
  fix e assume e: "e \<in> set (generateLenderAnalysis parse now loans)"
  let ?k = "name_l e"
  have k: "?k \<in> lenderName ` set loans"
    and eq: "e = analyseLender (?k, groupData parse now ?k loans)"
    using analysis_entry [OF e] by simp_all
  have pos: "Num 0 < len (lenderLoans ?k loans)"
    by (rule len_pos [OF lenderLoans_nonempty [OF k]])
  let ?G = "lenderLoans ?k loans"
  let ?pr = "(len (filter isPaid ?G) / len ?G) * Num 100"
  let ?or = "(len (filter (isOverdue parse now) ?G) / len ?G) * Num 100"
  show tl: "totalLoans_l e = len ?G"
    by (subst eq) (simp add: analyseLender_def Let_def groupData_def)
  then show "Num 0 < totalLoans_l e" using pos by simp
  show pl: "paidLoans_l e = len (filter isPaid ?G)"
    by (subst eq) (simp add: analyseLender_def Let_def groupData_def)
  show ol: "overdueLoans_l e = len (filter (isOverdue parse now) ?G)"
    by (subst eq) (simp add: analyseLender_def Let_def groupData_def)
  show "totalAmount_l e = sumTotals ?G"
    by (subst eq) (simp add: analyseLender_def Let_def groupData_def)
  have pr: "paymentRate_l e = ?pr"
    using pos by (subst eq) (simp add: analyseLender_def Let_def groupData_def)
  have or: "overdueRate_l e = ?or"
    by (simp add: overdueRate_l_def tl ol)
  have rl: "riskLevel e =
      (if Num 50 < ?or \<or> ?pr < Num 30 then High
       else if Num 20 < ?or \<or> ?pr < Num 60 then Medium else Low)"
    using pos by (subst eq) (simp add: analyseLender_def Let_def groupData_def)
  show "paymentRate_l e = (paidLoans_l e / totalLoans_l e) * Num 100"
    by (simp add: pr tl pl)
  show "(riskLevel e = High) = (Num 50 < overdueRate_l e \<or> paymentRate_l e < Num 30)"
    unfolding rl or pr by simp
  show "(riskLevel e = Medium) =
              (\<not> (Num 50 < overdueRate_l e \<or> paymentRate_l e < Num 30)
               \<and> (Num 20 < overdueRate_l e \<or> paymentRate_l e < Num 60))"
    unfolding rl or pr by simp
  show "(riskLevel e = Low) =
              (\<not> (Num 50 < overdueRate_l e \<or> paymentRate_l e < Num 30)
               \<and> \<not> (Num 20 < overdueRate_l e \<or> paymentRate_l e < Num 60))"
    unfolding rl or pr by simp
next
  let ?m = "foldl (groupLoan parse now) [] loans"
  have "\<forall>e\<in>set (map analyseLender ?m). isFinite (totalAmount_l e)"
  proof
    fix e assume "e \<in> set (map analyseLender ?m)"
    then have e: "e \<in> set (generateLenderAnalysis parse now loans)"
      by (simp add: generateLenderAnalysis_def Let_def set_sortBy)
    have "e = analyseLender (name_l e, groupData parse now (name_l e) loans)"
      using analysis_entry [OF e] by simp
    then have "totalAmount_l e = sumTotals (lenderLoans (name_l e) loans)"
      by (metis (no_types) analyseLender_def LenderAnalysis.select_convs(3) groupData_def
            LenderData.select_convs(2) snd_conv)
    also have "\<dots> = Num (ratTotal (lenderLoans (name_l e) loans))"
      by (rule sumTotals_finite) (simp add: lenderLoans_def assms)
    finally show "isFinite (totalAmount_l e)" by simp
  qed
  then show "sorted_wrt (\<lambda>a b. totalAmount_l b \<le> totalAmount_l a)
            (generateLenderAnalysis parse now loans)"
    unfolding generateLenderAnalysis_def Let_def by (rule sortBy_descending)
next
  let ?m = "foldl (groupLoan parse now) [] loans"
  have n: "map name_l (map analyseLender ?m) = map fst ?m"
    by (simp add: analyseLender_def Let_def)
  have "name_l ` set (map analyseLender ?m) = fst ` set ?m"
    using n by (metis set_map)
  then show "name_l ` set (generateLenderAnalysis parse now loans) = lenderName ` set loans"
    using grouped_keys [OF grouped_foldl, of parse now loans]
    by (simp add: generateLenderAnalysis_def Let_def set_sortBy)
  have "distinct (map fst ?m)"
    using grouped_foldl [of parse now loans] by (simp add: grouped_def)
  then show "distinct (map name_l (generateLenderAnalysis parse now loans))"
    unfolding generateLenderAnalysis_def Let_def distinct_map_sortBy n .
qed


text \<open>
  Acme, with two of three loans overdue, is High; Dayo, with one of two loans paid, is
  Medium; the entries descend from 175000 to 2000.
\<close>

theorem lenderAnalysis_risk_and_order_witness:
  "list_all finiteLoan lenderExamples
   \<and> sorted_wrt (\<lambda>a b. totalAmount_l b \<le> totalAmount_l a)
         (generateLenderAnalysis exampleParse exampleNow lenderExamples)
   \<and> map name_l (generateLenderAnalysis exampleParse exampleNow lenderExamples)
       = [''Chidi'', ''Acme'', ''Bola'', ''Dayo'']
   \<and> map totalAmount_l (generateLenderAnalysis exampleParse exampleNow lenderExamples)
       = [Num 175000, Num 150000, Num 26250, Num 2000]
   \<and> map riskLevel (generateLenderAnalysis exampleParse exampleNow lenderExamples)
       = [Low, High, High, Medium]"
proof -
  have fin: "\<forall>l\<in>set lenderExamples. finiteLoan l"
    by (simp add: lenderExamples_def exampleLoan_def finiteLoan_def)
  have ev: "map (\<lambda>e. (name_l e, totalAmount_l e, riskLevel e))
              (generateLenderAnalysis exampleParse exampleNow lenderExamples)
            = [(''Chidi'', Num 175000, Low), (''Acme'', Num 150000, High),
               (''Bola'', Num 26250, High), (''Dayo'', Num 2000, Medium)]"
    by (simp add: generateLenderAnalysis_def groupLoan_def analyseLender_def sortBy_def
        Let_def lenderExamples_def exampleLoan_def exampleParse_def exampleNow_def
        calculateTotalWithInterest_def isOverdue_def len_def minus_number_def)
  have "map name_l (generateLenderAnalysis exampleParse exampleNow lenderExamples)
          = map fst (map (\<lambda>e. (name_l e, totalAmount_l e, riskLevel e))
              (generateLenderAnalysis exampleParse exampleNow lenderExamples))"
       "map totalAmount_l (generateLenderAnalysis exampleParse exampleNow lenderExamples)
          = map (fst \<circ> snd) (map (\<lambda>e. (name_l e, totalAmount_l e, riskLevel e))
              (generateLenderAnalysis exampleParse exampleNow lenderExamples))"
       "map riskLevel (generateLenderAnalysis exampleParse exampleNow lenderExamples)
          = map (snd \<circ> snd) (map (\<lambda>e. (name_l e, totalAmount_l e, riskLevel e))
              (generateLenderAnalysis exampleParse exampleNow lenderExamples))"
    by (simp_all add: comp_def)
  then have "map name_l (generateLenderAnalysis exampleParse exampleNow lenderExamples)
               = [''Chidi'', ''Acme'', ''Bola'', ''Dayo'']"
       "map totalAmount_l (generateLenderAnalysis exampleParse exampleNow lenderExamples)
               = [Num 175000, Num 150000, Num 26250, Num 2000]"
       "map riskLevel (generateLenderAnalysis exampleParse exampleNow lenderExamples)
               = [Low, High, High, Medium]"
    unfolding ev by simp_all
  then show ?thesis
    using fin lenderAnalysis_risk_and_order [OF fin, of exampleParse exampleNow]
    by (simp add: list_all_iff)
qed

section \<open>Risk assessment\<close>

lemma weightedScore_five:
  "weightedScore [f1, f2, f3, f4, f5] =
     Num 0 + score f1 * Num (3 / 10) + score f2 * Num (25 / 100) + score f3 * Num (15 / 100)
       + score f4 * Num (2 / 10) + score f5 * Num (1 / 10)"
  by (simp add: weightedScore_def weights_def at_index_def upt_rec)

text \<open>
  The overall risk is the rounded weighted sum of the five factor scores, in the order of
  the factors; the summary is chosen by comparing the sum before it is rounded.
\<close>

lemma riskAssessment_weighted_sum:
  "factors (generateRiskAssessment parse now loans) =
     [overdueFactor parse now loans, concentrationFactor loans, interestFactor loans,
      velocityFactor loans, sizeFactor loans]
   \<and> overallRisk (generateRiskAssessment parse now loans) =
       Math_round (Num 0 + score (overdueFactor parse now loans) * Num (3 / 10)
         + score (concentrationFactor loans) * Num (25 / 100)
         + score (interestFactor loans) * Num (15 / 100)
         + score (velocityFactor loans) * Num (2 / 10)
         + score (sizeFactor loans) * Num (1 / 10))
   \<and> summary (generateRiskAssessment parse now loans) =
       (if Num 70 \<le> weightedScore (factors (generateRiskAssessment parse now loans))
          then summaryHigh
        else if Num 40 \<le> weightedScore (factors (generateRiskAssessment parse now loans))
          then summaryModerate
        else summaryLow)"
  by (simp add: generateRiskAssessment_def Let_def weightedScore_five)

lemma boundary_factors:
  "score (overdueFactor exampleParse exampleNow boundaryExamples) = Num (600 / 7)"
  "score (concentrationFactor boundaryExamples) = Num 80"
  "score (interestFactor boundaryExamples) = Num 60"
  "score (velocityFactor boundaryExamples) = Num 70"
  "score (sizeFactor boundaryExamples) = Num 10"
  by (simp_all add: overdueFactor_def concentrationFactor_def interestFactor_def
        velocityFactor_def sizeFactor_def boundaryExamples_def exampleLoan_def
        exampleParse_def exampleNow_def isOverdue_def hasInterest_def len_def
        Math_min_def Math_max_def Map_values_def addExposure_def sumTotals_def
        calculateTotalWithInterest_def minus_number_def Let_def eval_nat_numeral)

text \<open>
  Claim C7. The overall risk is the weighted sum of the five factor scores rounded to the
  nearest integer, and the summary is High from a score of 70 on. For the fourteen loans
  above the weighted sum is 488/7, about 69.7: the overall risk reported is 70, which the
  dashboard colours red as it does every score from 70 on, while the summary is the one
  for a moderate risk, since the sum is compared with 70 before it is rounded.
\<close>

theorem risk_band_boundary:
  "weightedScore (factors (generateRiskAssessment exampleParse exampleNow boundaryExamples))
     = Num (488 / 7)
   \<and> overallRisk (generateRiskAssessment exampleParse exampleNow boundaryExamples) = Num 70
   \<and> summary (generateRiskAssessment exampleParse exampleNow boundaryExamples) = summaryModerate
   \<and> summary (generateRiskAssessment exampleParse exampleNow boundaryExamples) \<noteq> summaryHigh
   \<and> overallRiskColor (generateRiskAssessment exampleParse exampleNow boundaryExamples) = ''red''"
proof -
  have r: "round (488 / 7 :: rat) = 70"
    unfolding round_def by (rule floor_unique) simp_all
  have w: "weightedScore (factors (generateRiskAssessment exampleParse exampleNow boundaryExamples))
     = Num (488 / 7)"
    by (simp add: generateRiskAssessment_def Let_def weightedScore_five boundary_factors)
  have o: "overallRisk (generateRiskAssessment exampleParse exampleNow boundaryExamples) = Num 70"
    using w r by (simp add: generateRiskAssessment_def Let_def)
  have s: "summary (generateRiskAssessment exampleParse exampleNow boundaryExamples) = summaryModerate"
    using w by (simp add: generateRiskAssessment_def Let_def less_eq_number_def)
  have d: "summaryModerate \<noteq> summaryHigh"
    by (simp add: summaryModerate_def summaryHigh_def)
  show ?thesis
    using w o s d by (simp add: overallRiskColor_def less_eq_number_def)
qed


end
